theory Spec2Isabelle
  imports Complex_Main
begin

section \<open>OpenBackdoor: the clean trainer (openbackdoor/trainers/trainer.py)\<close>

text \<open>
  A shallow embedding of class \<open>Trainer\<close>. The victim model, the optimizer, the
  scheduler, the loss function and the metric evaluator are collaborators that live outside
  the file; they are taken as a record of functions over an opaque session state \<open>'w\<close>
  (parameters, gradients, optimizer and scheduler state). Python floats are read as reals:
  rounding is not modelled, only which values are added, divided and compared.
  Everything a call does to the outside world is kept in the \<open>world\<close> record: the model's
  mode flag, the files on disk and the trace of the calls made to the collaborators.
\<close>

subsection \<open>Data\<close>

datatype error =
    ZeroDivisionError
  | AttributeError
  | TypeError
  | KeyError
  | IndexError
  | FileNotFoundError
  | UnpicklingError

text \<open>A batch as the dataloaders yield it: a dict with the fields the trainer reads.\<close>

record batch =
  text_field :: "string list"
  label :: "int list"
  poison_label :: "int list"

text \<open>
  The value bound to the name \<open>hidden_state\<close>: a Python list of per-example vectors, or a
  tensor (given by its slices along the first axis).
\<close>

datatype 'v pyobj = PyList "'v list" | Tensor "'v list"

datatype 'w content = StateDict 'w | NpArray | Png

datatype event =
    ModelTrain
  | ModelEval
  | ZeroGrad
  | MakeOptimizer int int
  | LossComputed real
  | Backward
  | ClipGradNorm
  | OptimizerStep
  | SchedulerStep
  | LogEpoch nat real
  | Evaluated "string list" real
  | TorchSave string
  | TorchLoad string
  | MakeDirs string
  | NpSave string
  | VisualizeCalled nat nat
  | SaveFig string

record 'w world =
  weights :: 'w
  training :: bool
  files :: "string \<rightharpoonup> 'w content"
  trace :: "event list"

text \<open>The collaborators: victim model, loss function, optimizer, scheduler, evaluator.\<close>

record ('w, 'v) ops =
  loss_fn :: "'w \<Rightarrow> batch \<Rightarrow> real"
  backward :: "batch \<Rightarrow> 'w \<Rightarrow> 'w"
  clip_grad_norm :: "real \<Rightarrow> 'w \<Rightarrow> 'w"
  optimizer_step :: "'w \<Rightarrow> 'w"
  scheduler_step :: "'w \<Rightarrow> 'w"
  zero_grad :: "'w \<Rightarrow> 'w"
  make_optimizer :: "int \<Rightarrow> int \<Rightarrow> 'w \<Rightarrow> 'w"
  evaluate_classification :: "'w \<Rightarrow> (string \<times> batch list) list \<Rightarrow> real"
  last_hidden_state :: "'w \<Rightarrow> batch \<Rightarrow> 'v list"
  pooler_output :: "'w \<Rightarrow> batch \<Rightarrow> 'v list"

text \<open>The attributes \<open>__init__\<close> stores on the trainer (\<open>save_path\<close> is the per-run directory).\<close>

record trainer =
  epochs :: int
  batch_size :: int
  gradient_accumulation_steps :: int
  max_grad_norm :: real
  warm_up_epochs :: int
  ckpt :: string
  save_path :: string
  visualize_flag :: bool

text \<open>\<open>config["attacker"]["poisoner"]\<close>; \<open>poison_rate\<close> is kept as \<open>str(poison_rate)\<close>.\<close>

record poisoner_config =
  poisoner_name :: string
  poison_rate :: string
  label_consistency :: bool

definition emit :: "event \<Rightarrow> 'w world \<Rightarrow> 'w world" where
  "emit ev s = s\<lparr>trace := trace s @ [ev]\<rparr>"

definition on_weights :: "('w \<Rightarrow> 'w) \<Rightarrow> 'w world \<Rightarrow> 'w world" where
  "on_weights f s = s\<lparr>weights := f (weights s)\<rparr>"

subsection \<open>Strings and paths\<close>

text \<open>\<open>s.split(c)[0]\<close> for a one-character separator: \<open>split\<close> never returns an empty list.\<close>

fun split_char :: "char \<Rightarrow> string \<Rightarrow> string list" where
  "split_char c [] = [] # []"
| "split_char c (x # xs) =
     (if x = c then [] # split_char c xs
      else (case split_char c xs of
              [] \<Rightarrow> [x] # []
            | p # ps \<Rightarrow> (x # p) # ps))"

definition first_piece :: "string \<Rightarrow> error + string" where
  "first_piece s = (case split_char CHR ''-'' s of [] \<Rightarrow> Inl IndexError | p # _ \<Rightarrow> Inr p)"

text \<open>\<open>os.path.join\<close> on POSIX, two arguments and then any number.\<close>

definition path_join2 :: "string \<Rightarrow> string \<Rightarrow> string" where
  "path_join2 a b =
     (if b \<noteq> [] \<and> hd b = CHR ''/'' then b
      else if a = [] \<or> last a = CHR ''/'' then a @ b
      else a @ ''/'' @ b)"

definition path_join :: "string \<Rightarrow> string list \<Rightarrow> string" where
  "path_join a ps = foldl path_join2 a ps"

definition model_checkpoint :: "trainer \<Rightarrow> string \<Rightarrow> string" where
  "model_checkpoint tr c = path_join (save_path tr) [c @ ''.ckpt'']"

text \<open>\<open>str(n)\<close> for a non-negative integer.\<close>

definition digit_char :: "nat \<Rightarrow> char" where
  "digit_char d = char_of (48 + d)"

fun str_nat :: "nat \<Rightarrow> string" where
  "str_nat n = (if n < 10 then [digit_char n] else str_nat (n div 10) @ [digit_char (n mod 10)])"

subsection \<open>Calls that may raise\<close>

text \<open>
  A call returns its value or the exception it raised, and in both cases the world as the
  call left it: what was written before a raise stays written.
\<close>

type_synonym ('a, 'w) run = "(error + 'a) \<times> 'w world"

definition and_then :: "('a, 'w) run \<Rightarrow> ('a \<Rightarrow> 'w world \<Rightarrow> ('b, 'w) run) \<Rightarrow> ('b, 'w) run" where
  "and_then r f = (case r of (Inl e, s) \<Rightarrow> (Inl e, s) | (Inr a, s) \<Rightarrow> f a s)"

definition do_op :: "event \<Rightarrow> ('w \<Rightarrow> 'w) \<Rightarrow> 'w world \<Rightarrow> 'w world" where
  "do_op ev f s = emit ev (on_weights f s)"

definition set_training :: "bool \<Rightarrow> 'w world \<Rightarrow> 'w world" where
  "set_training b s = emit (if b then ModelTrain else ModelEval) (s\<lparr>training := b\<rparr>)"

definition write_file :: "event \<Rightarrow> string \<Rightarrow> 'w content \<Rightarrow> 'w world \<Rightarrow> 'w world" where
  "write_file ev p c s = emit ev (s\<lparr>files := (files s)(p \<mapsto> c)\<rparr>)"

definition torch_save :: "string \<Rightarrow> 'w world \<Rightarrow> 'w world" where
  "torch_save p s = write_file (TorchSave p) p (StateDict (weights s)) s"

definition np_save :: "string \<Rightarrow> 'w world \<Rightarrow> 'w world" where
  "np_save p s = write_file (NpSave p) p NpArray s"

definition torch_load :: "string \<Rightarrow> 'w world \<Rightarrow> ('w, 'w) run" where
  "torch_load p s =
     (case files s p of
        None \<Rightarrow> (Inl FileNotFoundError, emit (TorchLoad p) s)
      | Some (StateDict w) \<Rightarrow> (Inr w, emit (TorchLoad p) s)
      | Some _ \<Rightarrow> (Inl UnpicklingError, emit (TorchLoad p) s))"

text \<open>\<open>x.extend(ys)\<close>, \<open>len(x)\<close> and iteration: a tensor has no \<open>extend\<close>.\<close>

fun py_extend :: "'v pyobj \<Rightarrow> 'v list \<Rightarrow> error + 'v pyobj" where
  "py_extend (PyList xs) ys = Inr (PyList (xs @ ys))"
| "py_extend (Tensor t) ys = Inl AttributeError"

fun py_iter :: "'v pyobj \<Rightarrow> 'v list" where
  "py_iter (PyList xs) = xs"
| "py_iter (Tensor t) = t"

definition py_len :: "'v pyobj \<Rightarrow> nat" where
  "py_len x = length (py_iter x)"

subsection \<open>\<open>Trainer.register\<close>\<close>

text \<open>
  Training mode, cleared gradients, and the optimizer and scheduler sized from the length of
  the training dataloader. The list of metrics belongs to the evaluator and is taken to be
  non-empty, as its default is (\<open>self.metrics[0]\<close> is read here).
\<close>

definition register ::
  "('w, 'v) ops \<Rightarrow> trainer \<Rightarrow> (string \<times> batch list) list \<Rightarrow> 'w world \<Rightarrow> (unit, 'w) run" where
  "register ops tr dataloader s =
     (let s1 = set_training True s;
          s2 = do_op ZeroGrad (zero_grad ops) s1
      in case map_of dataloader ''train'' of
           None \<Rightarrow> (Inl KeyError, s2)
         | Some train_dataloader \<Rightarrow>
             (let train_length = int (length train_dataloader);
                  num_warmup_steps = warm_up_epochs tr * train_length;
                  num_training_steps = (warm_up_epochs tr + epochs tr) * train_length
              in (Inr (), do_op (MakeOptimizer num_warmup_steps num_training_steps)
                            (make_optimizer ops num_warmup_steps num_training_steps) s2)))"

subsection \<open>\<open>Trainer.train_one_epoch\<close>\<close>

text \<open>Lines 114 to 117: the loss is scaled, or else the backward pass runs.\<close>

definition scale_or_backward ::
  "('w, 'v) ops \<Rightarrow> trainer \<Rightarrow> batch \<Rightarrow> real \<Rightarrow> 'w world \<Rightarrow> real \<times> 'w world" where
  "scale_or_backward ops tr b loss s =
     (if gradient_accumulation_steps tr > 1
      then (loss / real_of_int (gradient_accumulation_steps tr), s)
      else (loss, do_op Backward (backward ops b) s))"

text \<open>Lines 119 to 124: the optimizer step of every \<open>gradient_accumulation_steps\<close>-th batch.\<close>

definition optimizer_update :: "('w, 'v) ops \<Rightarrow> trainer \<Rightarrow> 'w world \<Rightarrow> 'w world" where
  "optimizer_update ops tr s =
     do_op ZeroGrad (zero_grad ops)
       (do_op SchedulerStep (scheduler_step ops)
         (do_op OptimizerStep (optimizer_step ops)
           (do_op ClipGradNorm (clip_grad_norm ops (max_grad_norm tr)) s)))"

text \<open>The body of the loop over the batches; \<open>x % 0\<close> raises.\<close>

definition train_step ::
  "('w, 'v) ops \<Rightarrow> trainer \<Rightarrow> nat \<Rightarrow> batch \<Rightarrow> real \<Rightarrow> 'w world \<Rightarrow> (real, 'w) run" where
  "train_step ops tr step b total_loss s =
     (let loss0 = loss_fn ops (weights s) b;
          (loss, s1) = scale_or_backward ops tr b loss0 (emit (LossComputed loss0) s)
      in if gradient_accumulation_steps tr = 0 then (Inl ZeroDivisionError, s1)
         else if (int step + 1) mod gradient_accumulation_steps tr = 0
         then (Inr (total_loss + loss), optimizer_update ops tr s1)
         else (Inr total_loss, s1))"

fun train_batches ::
  "('w, 'v) ops \<Rightarrow> trainer \<Rightarrow> nat \<Rightarrow> batch list \<Rightarrow> real \<Rightarrow> 'w world \<Rightarrow> (real, 'w) run" where
  "train_batches ops tr step [] total_loss s = (Inr total_loss, s)"
| "train_batches ops tr step (b # bs) total_loss s =
     and_then (train_step ops tr step b total_loss s)
       (\<lambda>total_loss' s'. train_batches ops tr (Suc step) bs total_loss' s')"

definition train_one_epoch ::
  "('w, 'v) ops \<Rightarrow> trainer \<Rightarrow> nat \<Rightarrow> batch list \<Rightarrow> 'w world \<Rightarrow> (real, 'w) run" where
  "train_one_epoch ops tr epoch epoch_iterator s =
     and_then (train_batches ops tr 0 epoch_iterator 0 (set_training True s))
       (\<lambda>total_loss s'.
          if length epoch_iterator = 0 then (Inl ZeroDivisionError, s')
          else (Inr (total_loss / real (length epoch_iterator)), s'))"

subsection \<open>\<open>Trainer.compute_hidden\<close>\<close>

text \<open>
  The loop over the batches. The name \<open>hidden_state\<close> is first the result list, then in
  every iteration the tensor \<open>output.hidden_states[-1]\<close>, on which \<open>extend\<close> is called.
  The two pooling branches (named pooler, classifier head) are the collaborator
  \<open>pooler_output\<close>, already turned into a list of vectors.
\<close>

fun compute_hidden_batches ::
  "('w, 'v) ops \<Rightarrow> batch list \<Rightarrow> 'v pyobj \<Rightarrow> int list \<Rightarrow> int list \<Rightarrow> 'w world
     \<Rightarrow> ('v pyobj \<times> int list \<times> int list, 'w) run" where
  "compute_hidden_batches ops [] hidden_state labels poison_labels s =
     (Inr (hidden_state, labels, poison_labels), s)"
| "compute_hidden_batches ops (b # bs) hidden_state labels poison_labels s =
     (let labels' = labels @ label b;
          poison_labels' = poison_labels @ poison_label b;
          hidden_state' = Tensor (last_hidden_state ops (weights s) b);
          pooled = pooler_output ops (weights s) b
      in case py_extend hidden_state' pooled of
           Inl e \<Rightarrow> (Inl e, s)
         | Inr h \<Rightarrow> compute_hidden_batches ops bs h labels' poison_labels' s)"

definition compute_hidden ::
  "('w, 'v) ops \<Rightarrow> batch list \<Rightarrow> 'w world \<Rightarrow> ('v pyobj \<times> int list \<times> int list, 'w) run" where
  "compute_hidden ops dataloader s =
     and_then (compute_hidden_batches ops dataloader (PyList []) [] [] (set_training False s))
       (\<lambda>r s'. (Inr r, set_training True s'))"

subsection \<open>\<open>Trainer.visualize\<close>\<close>

text \<open>
  One figure per epoch slice. The projections (PCA, UMAP) and the plotting are outside the
  file and are taken to return; what is kept is the call itself, what can raise in the file
  (\<open>len(labels) = 0\<close>, a class index beyond the nine colours) and the files written.
\<close>

fun visualize_epochs :: "nat \<Rightarrow> string \<Rightarrow> nat list \<Rightarrow> 'w world \<Rightarrow> (unit, 'w) run" where
  "visualize_epochs num_classes fig_basepath [] s = (Inr (), s)"
| "visualize_epochs num_classes fig_basepath (epoch # es) s =
     (if num_classes > 9 then (Inl IndexError, s)
      else (let png = path_join fig_basepath [''epoch_'' @ str_nat epoch @ ''.png'']
            in visualize_epochs num_classes fig_basepath es
                 (write_file (SaveFig png) png Png (emit (MakeDirs fig_basepath) s))))"

definition visualize ::
  "'v pyobj \<Rightarrow> int list \<Rightarrow> int list \<Rightarrow> string \<Rightarrow> 'w world \<Rightarrow> (unit, 'w) run" where
  "visualize hidden_state labels poison_labels fig_basepath s =
     (let s0 = emit (VisualizeCalled (py_len hidden_state) (length labels)) s;
          dataset_len = length labels
      in if dataset_len = 0 then (Inl ZeroDivisionError, s0)
         else visualize_epochs (length (remdups labels)) fig_basepath
                [0 ..< py_len hidden_state div dataset_len] s0)"

subsection \<open>\<open>Trainer.train\<close>\<close>

text \<open>Lines 144 to 147: the splits handed to the evaluator.\<close>

fun select_eval :: "(string \<times> 'a) list \<Rightarrow> error + (string \<times> 'a) list" where
  "select_eval [] = Inr []"
| "select_eval ((key, item) # rest) =
     (case first_piece key of
        Inl e \<Rightarrow> Inl e
      | Inr p \<Rightarrow>
          (case select_eval rest of
             Inl e \<Rightarrow> Inl e
           | Inr r \<Rightarrow> Inr (if p = ''dev'' then (key, item) # r else r)))"

text \<open>
  What the visualisation branch keeps between its three places in \<open>train\<close>: the path
  pieces (local variables) and \<open>self.hidden_state\<close>, \<open>self.labels\<close>, \<open>self.poison_labels\<close>.
\<close>

record 'v vis_state =
  poison_method :: string
  poison_rate_str :: string
  poison_setting :: string
  hidden_hist :: "'v pyobj"
  labels_hist :: "int list"
  poison_labels_hist :: "int list"

type_synonym ('w, 'v) hidden_method =
  "('w, 'v) ops \<Rightarrow> batch list \<Rightarrow> 'w world \<Rightarrow> ('v pyobj \<times> int list \<times> int list, 'w) run"

text \<open>Lines 152 to 160: the baseline snapshot, before any epoch.\<close>

definition train_baseline ::
  "('w, 'v) hidden_method \<Rightarrow> ('w, 'v) ops \<Rightarrow> trainer \<Rightarrow> batch list \<Rightarrow> poisoner_config option
     \<Rightarrow> 'w world \<Rightarrow> ('v vis_state option, 'w) run" where
  "train_baseline ch ops tr hidden_loader config s =
     (if visualize_flag tr then
        (case config of
           None \<Rightarrow> (Inl TypeError, s)
         | Some c \<Rightarrow>
             and_then (ch ops hidden_loader s)
               (\<lambda>(hidden_state, labels, poison_labels) s'.
                  (Inr (Some \<lparr>poison_method = poisoner_name c,
                              poison_rate_str = poison_rate c,
                              poison_setting = (if label_consistency c then ''clean'' else ''dirty''),
                              hidden_hist = hidden_state,
                              labels_hist = labels,
                              poison_labels_hist = poison_labels\<rparr>), s')))
      else (Inr None, s))"

text \<open>Lines 168 to 170: one more snapshot, appended to \<open>self.hidden_state\<close>.\<close>

definition train_snapshot ::
  "('w, 'v) hidden_method \<Rightarrow> ('w, 'v) ops \<Rightarrow> trainer \<Rightarrow> batch list \<Rightarrow> 'v vis_state option
     \<Rightarrow> 'w world \<Rightarrow> ('v vis_state option, 'w) run" where
  "train_snapshot ch ops tr hidden_loader vis s =
     (if visualize_flag tr then
        and_then (ch ops hidden_loader s)
          (\<lambda>(hidden_state, _, _) s'.
             (case vis of
                None \<Rightarrow> (Inl AttributeError, s')
              | Some v \<Rightarrow>
                  (case py_extend (hidden_hist v) (py_iter hidden_state) of
                     Inl e \<Rightarrow> (Inl e, s')
                   | Inr h \<Rightarrow> (Inr (Some (v\<lparr>hidden_hist := h\<rparr>)), s'))))
      else (Inr vis, s))"

text \<open>Lines 172 to 175: the best score and the best checkpoint.\<close>

definition update_best :: "trainer \<Rightarrow> real \<Rightarrow> real \<Rightarrow> 'w world \<Rightarrow> real \<times> 'w world" where
  "update_best tr dev_score best_dev_score s =
     (if dev_score > best_dev_score
      then (dev_score,
            if ckpt tr = ''best'' then torch_save (model_checkpoint tr (ckpt tr)) s else s)
      else (best_dev_score, s))"

text \<open>
  Lines 163 to 175: the body of the loop over the epochs. The evaluator is a function of the
  session state and of the evaluation dataloaders; it leaves the world as it is.
\<close>

definition train_epoch ::
  "('w, 'v) hidden_method \<Rightarrow> ('w, 'v) ops \<Rightarrow> trainer \<Rightarrow> batch list \<Rightarrow> (string \<times> batch list) list
     \<Rightarrow> batch list \<Rightarrow> nat \<Rightarrow> real \<times> 'v vis_state option \<Rightarrow> 'w world
     \<Rightarrow> (real \<times> 'v vis_state option, 'w) run" where
  "train_epoch ch ops tr train_dataloader eval_dataloader hidden_loader epoch st s =
     and_then (train_one_epoch ops tr epoch train_dataloader s)
       (\<lambda>epoch_loss s1.
          (let s2 = emit (LogEpoch (epoch + 1) epoch_loss) s1;
               dev_score = evaluate_classification ops (weights s2) eval_dataloader;
               s3 = emit (Evaluated (map fst eval_dataloader) dev_score) s2
           in and_then (train_snapshot ch ops tr hidden_loader (snd st) s3)
                (\<lambda>vis' s4.
                   (let (best', s5) = update_best tr dev_score (fst st) s4
                    in (Inr (best', vis'), s5)))))"

fun train_epochs ::
  "('w, 'v) hidden_method \<Rightarrow> ('w, 'v) ops \<Rightarrow> trainer \<Rightarrow> batch list \<Rightarrow> (string \<times> batch list) list
     \<Rightarrow> batch list \<Rightarrow> nat list \<Rightarrow> real \<times> 'v vis_state option \<Rightarrow> 'w world
     \<Rightarrow> (real \<times> 'v vis_state option, 'w) run" where
  "train_epochs ch ops tr train_dataloader eval_dataloader hidden_loader [] st s = (Inr st, s)"
| "train_epochs ch ops tr train_dataloader eval_dataloader hidden_loader (epoch # es) st s =
     and_then (train_epoch ch ops tr train_dataloader eval_dataloader hidden_loader epoch st s)
       (\<lambda>st' s'. train_epochs ch ops tr train_dataloader eval_dataloader hidden_loader es st' s')"

text \<open>Lines 177 to 185: the arrays and the figures.\<close>

definition train_persist :: "'v vis_state option \<Rightarrow> trainer \<Rightarrow> 'w world \<Rightarrow> (unit, 'w) run" where
  "train_persist vis tr s =
     (if visualize_flag tr then
        (case vis of
           None \<Rightarrow> (Inl AttributeError, s)
         | Some v \<Rightarrow>
             (let pieces = [poison_setting v, poison_method v, poison_rate_str v];
                  hidden_path = path_join ''./hidden_states'' pieces;
                  s1 = emit (MakeDirs hidden_path) s;
                  s2 = np_save (path_join hidden_path [''hidden_states.npy'']) s1;
                  s3 = np_save (path_join hidden_path [''labels.npy'']) s2;
                  s4 = np_save (path_join hidden_path [''poison_labels.npy'']) s3
              in visualize (hidden_hist v) (labels_hist v) (poison_labels_hist v)
                   (path_join ''./visualization'' pieces) s4))
      else (Inr (), s))"

text \<open>Lines 187 to 194: the last checkpoint, and the reload of the configured checkpoint.\<close>

definition train_finish :: "trainer \<Rightarrow> 'w world \<Rightarrow> ('w, 'w) run" where
  "train_finish tr s =
     (let s1 = (if ckpt tr = ''last'' then torch_save (model_checkpoint tr (ckpt tr)) s else s)
      in and_then (torch_load (model_checkpoint tr (ckpt tr)) s1)
           (\<lambda>state_dict s2. (Inr state_dict, s2\<lparr>weights := state_dict\<rparr>)))"

text \<open>
  \<open>train\<close>, with the method \<open>self.compute_hidden\<close> as an argument: it is looked up on
  \<open>self\<close> at each call. \<open>dataloader\<close> is what \<open>wrap_dataset\<close> returned and \<open>hidden_loader\<close>
  what \<open>get_dataloader\<close> returns for the training split; both are outside the file.
\<close>

definition train_loop ::
  "('w, 'v) hidden_method \<Rightarrow> ('w, 'v) ops \<Rightarrow> trainer \<Rightarrow> (string \<times> batch list) list \<Rightarrow> batch list
     \<Rightarrow> poisoner_config option \<Rightarrow> nat \<Rightarrow> 'w world \<Rightarrow> (real \<times> 'v vis_state option, 'w) run" where
  "train_loop ch ops tr dataloader hidden_loader config k s =
     (case map_of dataloader ''train'' of
        None \<Rightarrow> (Inl KeyError, s)
      | Some train_dataloader \<Rightarrow>
          (case select_eval dataloader of
             Inl e \<Rightarrow> (Inl e, s)
           | Inr eval_dataloader \<Rightarrow>
               and_then (register ops tr dataloader s)
                 (\<lambda>_ s1. and_then (train_baseline ch ops tr hidden_loader config s1)
                    (\<lambda>vis s2. train_epochs ch ops tr train_dataloader eval_dataloader
                                 hidden_loader [0 ..< k] (0, vis) s2))))"

definition train_with ::
  "('w, 'v) hidden_method \<Rightarrow> ('w, 'v) ops \<Rightarrow> trainer \<Rightarrow> (string \<times> batch list) list \<Rightarrow> batch list
     \<Rightarrow> poisoner_config option \<Rightarrow> 'w world \<Rightarrow> ('w, 'w) run" where
  "train_with ch ops tr dataloader hidden_loader config s =
     and_then (train_loop ch ops tr dataloader hidden_loader config (nat (epochs tr)) s)
       (\<lambda>st s3. and_then (train_persist (snd st) tr s3) (\<lambda>_ s4. train_finish tr s4))"

definition train ::
  "('w, 'v) ops \<Rightarrow> trainer \<Rightarrow> (string \<times> batch list) list \<Rightarrow> batch list
     \<Rightarrow> poisoner_config option \<Rightarrow> 'w world \<Rightarrow> ('w, 'w) run" where
  "train = train_with compute_hidden"

subsection \<open>Observing a run\<close>

text \<open>
  The events a call added to the trace, and what can be read off a list of events: the
  losses computed, the dev scores returned by the evaluator, the checkpoints saved, the
  calls of \<open>visualize\<close> (length of the history, number of labels) and the paths
  created or written.
\<close>

definition new_events :: "'w world \<Rightarrow> 'w world \<Rightarrow> event list" where
  "new_events s s' = drop (length (trace s)) (trace s')"

fun losses_of :: "event list \<Rightarrow> real list" where
  "losses_of [] = []"
| "losses_of (LossComputed l # t) = l # losses_of t"
| "losses_of (ev # t) = losses_of t"

fun dev_scores :: "event list \<Rightarrow> real list" where
  "dev_scores [] = []"
| "dev_scores (Evaluated names x # t) = x # dev_scores t"
| "dev_scores (ev # t) = dev_scores t"

fun saves :: "event list \<Rightarrow> string list" where
  "saves [] = []"
| "saves (TorchSave p # t) = p # saves t"
| "saves (ev # t) = saves t"


fun touched :: "event \<Rightarrow> string list" where
  "touched (TorchSave p) = [p]"
| "touched (MakeDirs p) = [p]"
| "touched (NpSave p) = [p]"
| "touched (SaveFig p) = [p]"
| "touched ev = []"

definition touched_paths :: "event list \<Rightarrow> string list" where
  "touched_paths t = concat (map touched t)"

text \<open>
  \<open>evolves P s s'\<close>: the world \<open>s'\<close> comes from \<open>s\<close> by adding events that all
  satisfy \<open>P\<close>, and no file changed but at the paths these events touch.
\<close>

definition evolves :: "(event \<Rightarrow> bool) \<Rightarrow> 'w world \<Rightarrow> 'w world \<Rightarrow> bool" where
  "evolves P s s' \<longleftrightarrow>
     (\<exists>evs. trace s' = trace s @ evs \<and> list_all P evs
        \<and> (\<forall>p. p \<notin> set (touched_paths evs) \<longrightarrow> files s' p = files s p))"

text \<open>Kinds of events, by the part of the trainer that issues them.\<close>

fun training_event :: "event \<Rightarrow> bool" where
  "training_event ModelTrain = True"
| "training_event (LossComputed l) = True"
| "training_event Backward = True"
| "training_event ClipGradNorm = True"
| "training_event OptimizerStep = True"
| "training_event SchedulerStep = True"
| "training_event ZeroGrad = True"
| "training_event ev = False"

fun mode_event :: "event \<Rightarrow> bool" where
  "mode_event ModelTrain = True"
| "mode_event ModelEval = True"
| "mode_event ev = False"

fun setup_event :: "event \<Rightarrow> bool" where
  "setup_event ModelTrain = True"
| "setup_event ZeroGrad = True"
| "setup_event (MakeOptimizer a b) = True"
| "setup_event ev = False"

fun persist_event :: "event \<Rightarrow> bool" where
  "persist_event (MakeDirs p) = True"
| "persist_event (NpSave p) = True"
| "persist_event (VisualizeCalled a b) = True"
| "persist_event (SaveFig p) = True"
| "persist_event ev = False"

fun quiet_event :: "event \<Rightarrow> bool" where
  "quiet_event (Evaluated names x) = False"
| "quiet_event (TorchSave p) = False"
| "quiet_event (TorchLoad p) = False"
| "quiet_event (MakeDirs p) = False"
| "quiet_event (NpSave p) = False"
| "quiet_event (VisualizeCalled a b) = False"
| "quiet_event (SaveFig p) = False"
| "quiet_event ev = True"


text \<open>What \<open>train\<close> may do, for a trainer and the names of its evaluation splits.\<close>

fun train_event_ok :: "trainer \<Rightarrow> string list \<Rightarrow> event \<Rightarrow> bool" where
  "train_event_ok tr names (Evaluated ns x) = (ns = names)"
| "train_event_ok tr names (TorchSave p) = (p = model_checkpoint tr (ckpt tr))"
| "train_event_ok tr names (TorchLoad p) = (p = model_checkpoint tr (ckpt tr))"
| "train_event_ok tr names ModelEval = visualize_flag tr"
| "train_event_ok tr names (MakeDirs p) = visualize_flag tr"
| "train_event_ok tr names (NpSave p) = visualize_flag tr"
| "train_event_ok tr names (VisualizeCalled a b) = visualize_flag tr"
| "train_event_ok tr names (SaveFig p) = visualize_flag tr"
| "train_event_ok tr names ev = True"

definition labels_of :: "'v vis_state option \<Rightarrow> int list option" where
  "labels_of vis = map_option labels_hist vis"

text \<open>A path inside the directory \<open>d\<close>.\<close>

definition under_dir :: "string \<Rightarrow> string \<Rightarrow> bool" where
  "under_dir d p \<longleftrightarrow> take (length d + 1) p = d @ ''/''"

subsection \<open>The notions of the claims\<close>

text \<open>
  The loss as line 115 leaves it, and the losses added to \<open>total_loss\<close>: those of the
  batches whose position \<open>i\<close> (from \<open>k\<close>) has \<open>(i + 1) % g = 0\<close>.
\<close>

definition scaled_loss :: "int \<Rightarrow> real \<Rightarrow> real" where
  "scaled_loss g l = (if g > 1 then l / real_of_int g else l)"

definition step_losses_from :: "int \<Rightarrow> nat \<Rightarrow> real list \<Rightarrow> real list" where
  "step_losses_from g k ls =
     map (\<lambda>(i, l). scaled_loss g l) (filter (\<lambda>(i, l). (int i + 1) mod g = 0) (enumerate k ls))"

definition optimizer_step_losses :: "int \<Rightarrow> real list \<Rightarrow> real list" where
  "optimizer_step_losses g ls = step_losses_from g 0 ls"

text \<open>The names of the splits whose prefix before the first \<open>-\<close> is \<open>dev\<close>, in order.\<close>

definition dev_names :: "(string \<times> 'a) list \<Rightarrow> string list" where
  "dev_names dataloader =
     map fst (filter (\<lambda>(key, item). takeWhile (\<lambda>x. x \<noteq> CHR ''-'') key = ''dev'') dataloader)"


subsection \<open>Small concrete collaborators, for evaluating the definitions\<close>

text \<open>
  A victim whose session state is the number of optimizer steps taken so far; the loss of a
  batch is the sum of its labels and the dev score is a given function of the state.
\<close>

definition toy_ops :: "(nat \<Rightarrow> real) \<Rightarrow> (nat, nat) ops" where
  "toy_ops score =
     \<lparr>loss_fn = (\<lambda>w b. real_of_int (sum_list (label b))),
      backward = (\<lambda>b w. w),
      clip_grad_norm = (\<lambda>m w. w),
      optimizer_step = Suc,
      scheduler_step = (\<lambda>w. w),
      zero_grad = (\<lambda>w. w),
      make_optimizer = (\<lambda>a b w. w),
      evaluate_classification = (\<lambda>w dl. score w),
      last_hidden_state = (\<lambda>w b. map (\<lambda>l. w) (label b)),
      pooler_output = (\<lambda>w b. map (\<lambda>l. w) (label b))\<rparr>"

definition toy_trainer :: "int \<Rightarrow> int \<Rightarrow> string \<Rightarrow> bool \<Rightarrow> trainer" where
  "toy_trainer g e c v =
     \<lparr>epochs = e, batch_size = 4, gradient_accumulation_steps = g, max_grad_norm = 1,
      warm_up_epochs = 3, ckpt = c, save_path = ''./models/checkpoints/0'',
      visualize_flag = v\<rparr>"

definition toy_batch :: "int list \<Rightarrow> batch" where
  "toy_batch ls = \<lparr>text_field = map (\<lambda>l. ''x'') ls, label = ls, poison_label = map (\<lambda>l. 0) ls\<rparr>"

definition toy_world :: "nat world" where
  "toy_world = \<lparr>weights = 0, training = False, files = Map.empty, trace = []\<rparr>"

definition toy_config :: poisoner_config where
  "toy_config = \<lparr>poisoner_name = ''badnets'', poison_rate = ''0.1'', label_consistency = False\<rparr>"

definition score_zero :: "nat \<Rightarrow> real" where
  "score_zero w = 0"

definition score_half_steps :: "nat \<Rightarrow> real" where
  "score_half_steps w = real (w - 1) / 2"

definition score_negative :: "nat \<Rightarrow> real" where
  "score_negative w = (real w - 3) / 2"

definition toy_loaders :: "(string \<times> batch list) list" where
  "toy_loaders = [(''train'', [toy_batch [1]]), (''dev'', [toy_batch [0]]), (''test'', [])]"

definition toy_loaders_dev :: "(string \<times> batch list) list" where
  "toy_loaders_dev =
     [(''train'', [toy_batch [1]]), (''dev-a'', [toy_batch [0]]), (''dev-b'', [toy_batch [1]]),
      (''development'', [toy_batch [0]])]"


text \<open>The worlds these runs end in.\<close>

definition toy_after_1 :: "nat world" where
  "toy_after_1 =
     \<lparr>weights = 1, training = True, files = Map.empty,
      trace = [ModelTrain, ZeroGrad, MakeOptimizer 3 5, ModelTrain, LossComputed 1, Backward,
               ClipGradNorm, OptimizerStep, SchedulerStep, ZeroGrad, LogEpoch 1 1,
               Evaluated [''dev''] 0]\<rparr>"

definition toy_after_2 :: "nat world" where
  "toy_after_2 =
     \<lparr>weights = 2, training = True,
      files = [''./models/checkpoints/0/best.ckpt'' \<mapsto> StateDict (Suc (Suc 0))],
      trace = [ModelTrain, ZeroGrad, MakeOptimizer 3 5, ModelTrain, LossComputed 1, Backward,
               ClipGradNorm, OptimizerStep, SchedulerStep, ZeroGrad, LogEpoch 1 1,
               Evaluated [''dev''] 0,
               ModelTrain, LossComputed 1, Backward,
               ClipGradNorm, OptimizerStep, SchedulerStep, ZeroGrad, LogEpoch 2 1,
               Evaluated [''dev''] (1 / 2), TorchSave ''./models/checkpoints/0/best.ckpt'']\<rparr>"

definition toy_last_final :: "nat world" where
  "toy_last_final =
     \<lparr>weights = 2, training = True,
      files = [''./models/checkpoints/0/last.ckpt'' \<mapsto> StateDict (Suc (Suc 0))],
      trace = [ModelTrain, ZeroGrad, MakeOptimizer 3 5, ModelTrain, LossComputed 1, Backward,
               ClipGradNorm, OptimizerStep, SchedulerStep, ZeroGrad, LogEpoch 1 1,
               Evaluated [''dev''] 0,
               ModelTrain, LossComputed 1, Backward,
               ClipGradNorm, OptimizerStep, SchedulerStep, ZeroGrad, LogEpoch 2 1,
               Evaluated [''dev''] (1 / 2),
               TorchSave ''./models/checkpoints/0/last.ckpt'',
               TorchLoad ''./models/checkpoints/0/last.ckpt'']\<rparr>"


definition toy_dev_final :: "nat world" where
  "toy_dev_final =
     \<lparr>weights = 1, training = True, files = Map.empty,
      trace = [ModelTrain, ZeroGrad, MakeOptimizer 3 4, ModelTrain, LossComputed 1, Backward,
               ClipGradNorm, OptimizerStep, SchedulerStep, ZeroGrad, LogEpoch 1 1,
               Evaluated [''dev-a'', ''dev-b''] 0,
               TorchLoad ''./models/checkpoints/0/best.ckpt'']\<rparr>"

section \<open>Properties\<close>

subsection \<open>The evaluation splits\<close>

lemma split_char_takeWhile:
  "\<exists>rest. split_char c s = takeWhile (\<lambda>x. x \<noteq> c) s # rest"
  by (induction s) (auto split: list.splits)

lemma first_piece_eq: "first_piece s = Inr (takeWhile (\<lambda>x. x \<noteq> CHR ''-'') s)"
  using split_char_takeWhile [of "CHR ''-''" s] by (auto simp: first_piece_def)

lemma select_eval_filter:
  "select_eval dataloader =
     Inr (filter (\<lambda>(key, item). takeWhile (\<lambda>x. x \<noteq> CHR ''-'') key = ''dev'') dataloader)"
  by (induction dataloader) (auto simp: first_piece_eq)

lemma losses_of_append [simp]: "losses_of (a @ b) = losses_of a @ losses_of b"
  by (induction a rule: losses_of.induct) simp_all

lemma dev_scores_append [simp]: "dev_scores (a @ b) = dev_scores a @ dev_scores b"
  by (induction a rule: dev_scores.induct) simp_all

lemma saves_append [simp]: "saves (a @ b) = saves a @ saves b"
  by (induction a rule: saves.induct) simp_all

lemma touched_paths_simps [simp]:
  "touched_paths [] = []"
  "touched_paths (ev # t) = touched ev @ touched_paths t"
  "touched_paths (a @ b) = touched_paths a @ touched_paths b"
  by (simp_all add: touched_paths_def)

lemma evolves_refl [simp]: "evolves P s s"
  by (simp add: evolves_def)

lemma evolves_trans:
  assumes "evolves P s s1" and "evolves P s1 s2"
  shows "evolves P s s2"
proof -
  from assms(1) obtain e1 where e1: "trace s1 = trace s @ e1" "list_all P e1"
    "\<forall>p. p \<notin> set (touched_paths e1) \<longrightarrow> files s1 p = files s p"
    unfolding evolves_def by blast
  from assms(2) obtain e2 where e2: "trace s2 = trace s1 @ e2" "list_all P e2"
    "\<forall>p. p \<notin> set (touched_paths e2) \<longrightarrow> files s2 p = files s1 p"
    unfolding evolves_def by blast
  have "trace s2 = trace s @ (e1 @ e2)" using e1 e2 by simp
  moreover have "list_all P (e1 @ e2)" using e1 e2 by simp
  moreover have "\<forall>p. p \<notin> set (touched_paths (e1 @ e2)) \<longrightarrow> files s2 p = files s p"
    using e1 e2 by simp
  ultimately show ?thesis unfolding evolves_def by blast
qed

lemma evolves_mono:
  assumes "evolves P s s'" and "\<And>ev. P ev \<Longrightarrow> Q ev"
  shows "evolves Q s s'"
  using assms unfolding evolves_def list_all_iff by blast

lemma evolves_emit:
  assumes "P ev" and "touched ev = []"
  shows "evolves P s (emit ev s)"
  unfolding evolves_def using assms by (intro exI [of _ "[ev]"]) (simp add: emit_def)

lemma evolves_on_weights [simp]: "evolves P s (on_weights f s)"
  unfolding evolves_def by (intro exI [of _ "[]"]) (simp add: on_weights_def)

lemma evolves_do_op:
  assumes "P ev" and "touched ev = []"
  shows "evolves P s (do_op ev f s)"
proof -
  have "evolves P (on_weights f s) (emit ev (on_weights f s))"
    using assms by (rule evolves_emit)
  with evolves_on_weights [of P s f] show ?thesis
    unfolding do_op_def by (rule evolves_trans)
qed

lemma evolves_set_training:
  assumes "P (if b then ModelTrain else ModelEval)"
  shows "evolves P s (set_training b s)"
  unfolding evolves_def using assms
  by (intro exI [of _ "[if b then ModelTrain else ModelEval]"]) (simp add: set_training_def emit_def)

lemma evolves_write_file:
  assumes "P ev" and "p \<in> set (touched ev)"
  shows "evolves P s (write_file ev p c s)"
  unfolding evolves_def using assms
  by (intro exI [of _ "[ev]"]) (simp add: write_file_def emit_def)

lemma evolves_and_then:
  assumes "evolves P s0 (snd r)"
    and "\<And>a s1. r = (Inr a, s1) \<Longrightarrow> evolves P s1 (snd (f a s1))"
  shows "evolves P s0 (snd (and_then r f))"
proof (cases r)
  case (Pair x s1)
  show ?thesis
  proof (cases x)
    case (Inl e)
    with Pair assms(1) show ?thesis by (simp add: and_then_def)
  next
    case (Inr a)
    with Pair assms(2) [of a s1] have "evolves P s1 (snd (f a s1))" by simp
    with assms(1) Pair Inr show ?thesis
      by (auto simp: and_then_def intro: evolves_trans)
  qed
qed

lemma evolves_scale_or_backward:
  "evolves training_event s (snd (scale_or_backward ops tr b loss s))"
  by (simp add: scale_or_backward_def evolves_do_op)

lemma evolves_optimizer_update:
  "evolves training_event s (optimizer_update ops tr s)"
proof -
  have step: "\<And>ev f a b. training_event ev \<Longrightarrow> touched ev = [] \<Longrightarrow>
      evolves training_event a b \<Longrightarrow> evolves training_event a (do_op ev f b)"
    by (blast intro: evolves_trans evolves_do_op)
  show ?thesis
    unfolding optimizer_update_def by (simp add: step evolves_do_op)
qed

lemma evolves_train_step:
  "evolves training_event s (snd (train_step ops tr step b tot s))"
proof -
  let ?s0 = "emit (LossComputed (loss_fn ops (weights s) b)) s"
  let ?r = "scale_or_backward ops tr b (loss_fn ops (weights s) b) ?s0"
  have a: "evolves training_event s ?s0" by (simp add: evolves_emit)
  have b: "evolves training_event s (snd ?r)"
    by (rule evolves_trans [OF a evolves_scale_or_backward])
  have c: "evolves training_event s (optimizer_update ops tr (snd ?r))"
    by (rule evolves_trans [OF b evolves_optimizer_update])
  show ?thesis using b c by (simp add: train_step_def Let_def split_def)
qed

lemma evolves_train_batches:
  "evolves training_event s (snd (train_batches ops tr step bs tot s))"
proof (induction bs arbitrary: step tot s)
  case Nil
  show ?case by simp
next
  case (Cons b bs)
  show ?case
    unfolding train_batches.simps
    by (rule evolves_and_then [OF evolves_train_step]) (rule Cons.IH)
qed

lemma evolves_train_one_epoch:
  "evolves training_event s (snd (train_one_epoch ops tr epoch bs s))"
  unfolding train_one_epoch_def
proof (rule evolves_and_then)
  show "evolves training_event s (snd (train_batches ops tr 0 bs 0 (set_training True s)))"
    by (rule evolves_trans [OF evolves_set_training evolves_train_batches]) simp
qed simp

lemma step_losses_from_Nil [simp]: "step_losses_from g k [] = []"
  by (simp add: step_losses_from_def)

lemma step_losses_from_Cons:
  "step_losses_from g k (l # ls) =
     (if (int k + 1) mod g = 0 then [scaled_loss g l] else []) @ step_losses_from g (Suc k) ls"
  by (simp add: step_losses_from_def)

lemma trace_emit [simp]: "trace (emit ev s) = trace s @ [ev]"
  by (simp add: emit_def)

lemma trace_on_weights [simp]: "trace (on_weights f s) = trace s"
  by (simp add: on_weights_def)

lemma trace_do_op [simp]: "trace (do_op ev f s) = trace s @ [ev]"
  by (simp add: do_op_def)

lemma weights_emit [simp]: "weights (emit ev s) = weights s"
  by (simp add: emit_def)

lemma trace_optimizer_update [simp]:
  "trace (optimizer_update ops tr s) =
     trace s @ [ClipGradNorm, OptimizerStep, SchedulerStep, ZeroGrad]"
  by (simp add: optimizer_update_def)

lemma scale_or_backward_eq:
  "scale_or_backward ops tr b loss s =
     (scaled_loss (gradient_accumulation_steps tr) loss,
      if gradient_accumulation_steps tr > 1 then s else do_op Backward (backward ops b) s)"
  by (simp add: scale_or_backward_def scaled_loss_def)

lemma train_step_value:
  assumes "gradient_accumulation_steps tr \<noteq> 0"
  shows "fst (train_step ops tr step b tot s) =
           Inr (tot + sum_list (step_losses_from (gradient_accumulation_steps tr) step
                                  [loss_fn ops (weights s) b]))"
    and "losses_of (trace (snd (train_step ops tr step b tot s))) =
           losses_of (trace s) @ [loss_fn ops (weights s) b]"
    and "count_list (trace (snd (train_step ops tr step b tot s))) OptimizerStep =
           count_list (trace s) OptimizerStep
           + length (step_losses_from (gradient_accumulation_steps tr) step
                       [loss_fn ops (weights s) b])"
  using assms
  by (simp_all add: train_step_def Let_def scale_or_backward_eq step_losses_from_Cons)

lemma train_batches_value:
  assumes "gradient_accumulation_steps tr \<noteq> 0"
  shows "\<exists>ls. length ls = length bs
           \<and> fst (train_batches ops tr step bs tot s) =
               Inr (tot + sum_list (step_losses_from (gradient_accumulation_steps tr) step ls))
           \<and> losses_of (trace (snd (train_batches ops tr step bs tot s))) =
               losses_of (trace s) @ ls
           \<and> count_list (trace (snd (train_batches ops tr step bs tot s))) OptimizerStep =
               count_list (trace s) OptimizerStep
               + length (step_losses_from (gradient_accumulation_steps tr) step ls)"
proof (induction bs arbitrary: step tot s)
  case Nil
  show ?case by simp
next
  case (Cons b bs)
  let ?g = "gradient_accumulation_steps tr"
  let ?l = "loss_fn ops (weights s) b"
  obtain r s1 where r: "train_step ops tr step b tot s = (r, s1)" by (cases "train_step ops tr step b tot s")
  from train_step_value [OF assms, of ops step b tot s] r
  have v: "r = Inr (tot + sum_list (step_losses_from ?g step [?l]))"
    and t: "losses_of (trace s1) = losses_of (trace s) @ [?l]"
    and c: "count_list (trace s1) OptimizerStep =
              count_list (trace s) OptimizerStep + length (step_losses_from ?g step [?l])"
    by simp_all
  from Cons.IH [of "Suc step" "tot + sum_list (step_losses_from ?g step [?l])" s1]
  obtain ls where ls: "length ls = length bs"
    "fst (train_batches ops tr (Suc step) bs (tot + sum_list (step_losses_from ?g step [?l])) s1) =
       Inr (tot + sum_list (step_losses_from ?g step [?l])
              + sum_list (step_losses_from ?g (Suc step) ls))"
    "losses_of (trace (snd (train_batches ops tr (Suc step) bs
        (tot + sum_list (step_losses_from ?g step [?l])) s1))) = losses_of (trace s1) @ ls"
    "count_list (trace (snd (train_batches ops tr (Suc step) bs
        (tot + sum_list (step_losses_from ?g step [?l])) s1))) OptimizerStep =
       count_list (trace s1) OptimizerStep + length (step_losses_from ?g (Suc step) ls)"
    by blast
  have e: "train_batches ops tr step (b # bs) tot s =
             train_batches ops tr (Suc step) bs (tot + sum_list (step_losses_from ?g step [?l])) s1"
    using r v by (simp add: and_then_def)
  have split: "step_losses_from ?g step (?l # ls) =
                 step_losses_from ?g step [?l] @ step_losses_from ?g (Suc step) ls"
    by (simp add: step_losses_from_Cons)
  show ?case
    apply (rule exI [of _ "?l # ls"])
    unfolding e split
    using ls t c by simp
qed

lemma training_event_quiet: "training_event ev \<Longrightarrow> quiet_event ev"
  by (cases ev) simp_all

lemma mode_event_quiet: "mode_event ev \<Longrightarrow> quiet_event ev"
  by (cases ev) simp_all

lemma quiet_projections:
  "list_all quiet_event evs \<Longrightarrow> saves evs = [] \<and> dev_scores evs = [] \<and> touched_paths evs = []"
proof (induction evs)
  case Nil
  show ?case by simp
next
  case (Cons ev evs)
  then show ?case by (cases ev) simp_all
qed

lemma evolves_new_events:
  assumes "evolves P s s'"
  shows "trace s' = trace s @ new_events s s'" and "list_all P (new_events s s')"
    and "\<And>p. p \<notin> set (touched_paths (new_events s s')) \<Longrightarrow> files s' p = files s p"
  using assms unfolding evolves_def new_events_def by auto

lemma evolves_quiet:
  assumes "evolves quiet_event s s'"
  shows "files s' = files s" and "saves (trace s') = saves (trace s)"
    and "dev_scores (trace s') = dev_scores (trace s)"
proof -
  from assms obtain evs where e: "trace s' = trace s @ evs" "list_all quiet_event evs"
    "\<forall>p. p \<notin> set (touched_paths evs) \<longrightarrow> files s' p = files s p"
    unfolding evolves_def by blast
  from quiet_projections [OF e(2)] have q: "saves evs = []" "dev_scores evs = []" "touched_paths evs = []"
    by simp_all
  show "files s' = files s" using e(3) q(3) by auto
  show "saves (trace s') = saves (trace s)" using e(1) q(1) by simp
  show "dev_scores (trace s') = dev_scores (trace s)" using e(1) q(2) by simp
qed

lemma and_then_Inr:
  "and_then r f = (Inr b, s') \<longleftrightarrow> (\<exists>a s1. r = (Inr a, s1) \<and> f a s1 = (Inr b, s'))"
  by (cases r; cases "fst r") (auto simp: and_then_def)

lemma and_then_Inl:
  "and_then r f = (Inl e, s') \<longleftrightarrow>
     r = (Inl e, s') \<or> (\<exists>a s1. r = (Inr a, s1) \<and> f a s1 = (Inl e, s'))"
  by (cases r; cases "fst r") (auto simp: and_then_def)

subsection \<open>compute_hidden\<close>

lemma compute_hidden_batches_Cons:
  "compute_hidden_batches ops (b # bs) h ls pls s = (Inl AttributeError, s)"
  by (simp add: Let_def)

lemma compute_hidden_Nil:
  "compute_hidden ops [] s = (Inr (PyList [], [], []), set_training True (set_training False s))"
  by (simp add: compute_hidden_def and_then_def)

lemma compute_hidden_Cons:
  "compute_hidden ops (b # bs) s = (Inl AttributeError, set_training False s)"
  by (simp add: compute_hidden_def and_then_def Let_def)

lemma compute_hidden_returns:
  assumes "compute_hidden ops dl s = (Inr r, s')"
  shows "dl = [] \<and> r = (PyList [], [], [])"
  using assms by (cases dl) (simp_all add: compute_hidden_Nil compute_hidden_Cons)

lemma evolves_compute_hidden:
  "evolves mode_event s (snd (compute_hidden ops dl s))"
proof (cases dl)
  case Nil
  have "evolves mode_event s (set_training False s)" by (simp add: evolves_set_training)
  moreover have "evolves mode_event (set_training False s) (set_training True (set_training False s))"
    by (simp add: evolves_set_training)
  ultimately show ?thesis using Nil by (auto simp: compute_hidden_Nil intro: evolves_trans)
next
  case (Cons b bs)
  then show ?thesis by (simp add: compute_hidden_Cons evolves_set_training)
qed

subsection \<open>One epoch\<close>

lemma train_one_epoch_Inr:
  assumes "gradient_accumulation_steps tr \<noteq> 0" and "epoch_iterator \<noteq> []"
  shows "\<exists>ls s'. length ls = length epoch_iterator
           \<and> train_one_epoch ops tr epoch epoch_iterator s =
               (Inr (sum_list (optimizer_step_losses (gradient_accumulation_steps tr) ls)
                       / real (length epoch_iterator)), s')
           \<and> losses_of (trace s') = losses_of (trace s) @ ls
           \<and> count_list (trace s') OptimizerStep =
               count_list (trace s) OptimizerStep
               + length (optimizer_step_losses (gradient_accumulation_steps tr) ls)"
proof -
  let ?g = "gradient_accumulation_steps tr"
  let ?s0 = "set_training True s"
  obtain r s' where r: "train_batches ops tr 0 epoch_iterator 0 ?s0 = (r, s')"
    by (cases "train_batches ops tr 0 epoch_iterator 0 ?s0")
  from train_batches_value [OF assms(1), of epoch_iterator ops 0 0 ?s0] r
  obtain ls where ls: "length ls = length epoch_iterator"
    "r = Inr (sum_list (step_losses_from ?g 0 ls))"
    "losses_of (trace s') = losses_of (trace ?s0) @ ls"
    "count_list (trace s') OptimizerStep =
       count_list (trace ?s0) OptimizerStep + length (step_losses_from ?g 0 ls)"
    by auto
  have "train_one_epoch ops tr epoch epoch_iterator s =
          (Inr (sum_list (optimizer_step_losses ?g ls) / real (length epoch_iterator)), s')"
    using r ls(2) assms(2)
    by (simp add: train_one_epoch_def and_then_def optimizer_step_losses_def)
  moreover have "losses_of (trace s') = losses_of (trace s) @ ls"
    using ls(3) by (simp add: set_training_def)
  moreover have "count_list (trace s') OptimizerStep =
      count_list (trace s) OptimizerStep + length (optimizer_step_losses ?g ls)"
    using ls(4) by (simp add: set_training_def optimizer_step_losses_def)
  ultimately show ?thesis using ls(1) by blast
qed

text \<open>
  C2. For an epoch iterator with at least one batch (and a non-zero accumulation factor, so
  that \<open>(step + 1) % gradient_accumulation_steps\<close> is defined), \<open>train_one_epoch\<close>
  returns, and what it returns is the sum of the losses of the optimizer-step batches, each
  divided by the factor when the factor exceeds 1, divided by the number of batches. Here
  \<open>ls\<close> are the losses the loss function returned for the batches of this pass, in order;
  the number of optimizer steps is \<open>length (optimizer_step_losses g ls)\<close>, not the
  denominator.
\<close>

theorem train_one_epoch_average:
  assumes "gradient_accumulation_steps tr \<noteq> 0" and "epoch_iterator \<noteq> []"
  shows "\<exists>ls s'. length ls = length epoch_iterator
           \<and> losses_of (trace s') = losses_of (trace s) @ ls
           \<and> train_one_epoch ops tr epoch epoch_iterator s =
               (Inr (sum_list (optimizer_step_losses (gradient_accumulation_steps tr) ls)
                       / real (length epoch_iterator)), s')
           \<and> count_list (trace s') OptimizerStep =
               count_list (trace s) OptimizerStep
               + length (optimizer_step_losses (gradient_accumulation_steps tr) ls)"
  using train_one_epoch_Inr [OF assms] by blast

text \<open>
  C1, as amended. For every batch: if \<open>gradient_accumulation_steps > 1\<close> the batch loss is
  divided by it and the world is left as it was (no backward pass); otherwise the loss is
  kept and the backward pass runs. So the backward pass runs for a batch exactly when
  \<open>gradient_accumulation_steps \<le> 1\<close>, the \<open>else\<close> branch of the test \<open>> 1\<close>.
\<close>

theorem backward_only_without_accumulation:
  "(gradient_accumulation_steps tr > 1 \<longrightarrow>
      scale_or_backward ops tr b loss s = (loss / real_of_int (gradient_accumulation_steps tr), s))
   \<and> (\<not> gradient_accumulation_steps tr > 1 \<longrightarrow>
      scale_or_backward ops tr b loss s = (loss, do_op Backward (backward ops b) s))
   \<and> count_list (trace (snd (train_step ops tr step b tot s))) Backward =
       count_list (trace s) Backward + (if gradient_accumulation_steps tr \<le> 1 then 1 else 0)"
  by (simp add: scale_or_backward_def train_step_def Let_def)

subsection \<open>Evaluation at concrete inputs\<close>

lemmas toy_defs = toy_ops_def toy_trainer_def toy_batch_def toy_world_def toy_config_def
  score_zero_def score_half_steps_def

lemmas run_defs = and_then_def emit_def on_weights_def do_op_def set_training_def
  write_file_def torch_save_def np_save_def torch_load_def

theorem train_one_epoch_average_witness:
  "gradient_accumulation_steps (toy_trainer 2 1 ''best'' False) \<noteq> 0
   \<and> [toy_batch [1], toy_batch [2], toy_batch [4]] \<noteq> []
   \<and> (\<exists>ls s'. length ls = length [toy_batch [1], toy_batch [2], toy_batch [4]]
         \<and> losses_of (trace s') = losses_of (trace toy_world) @ ls
         \<and> train_one_epoch (toy_ops score_zero) (toy_trainer 2 1 ''best'' False) 0
              [toy_batch [1], toy_batch [2], toy_batch [4]] toy_world =
             (Inr (sum_list (optimizer_step_losses
                      (gradient_accumulation_steps (toy_trainer 2 1 ''best'' False)) ls)
                   / real (length [toy_batch [1], toy_batch [2], toy_batch [4]])), s')
         \<and> count_list (trace s') OptimizerStep =
             count_list (trace toy_world) OptimizerStep
             + length (optimizer_step_losses
                 (gradient_accumulation_steps (toy_trainer 2 1 ''best'' False)) ls))
   \<and> fst (train_one_epoch (toy_ops score_zero) (toy_trainer 2 1 ''best'' False) 0
             [toy_batch [1], toy_batch [2], toy_batch [4]] toy_world) = Inr (1 / 3)"
proof -
  have g: "gradient_accumulation_steps (toy_trainer 2 1 ''best'' False) \<noteq> 0"
    by (simp add: toy_trainer_def)
  have n: "[toy_batch [1], toy_batch [2], toy_batch [4]] \<noteq> []" by simp
  have v: "fst (train_one_epoch (toy_ops score_zero) (toy_trainer 2 1 ''best'' False) 0
             [toy_batch [1], toy_batch [2], toy_batch [4]] toy_world) = Inr (1 / 3)"
    by (simp add: train_one_epoch_def train_step_def scale_or_backward_def
        optimizer_update_def Let_def toy_defs run_defs)
  show ?thesis
    using g n v train_one_epoch_average [OF g n, where ops = "toy_ops score_zero" and epoch = 0 and s = toy_world]
    by blast
qed

theorem backward_only_without_accumulation_witness:
  "scale_or_backward (toy_ops score_zero) (toy_trainer 2 1 ''best'' False) (toy_batch [3]) 3 toy_world
     = (3 / 2, toy_world)
   \<and> count_list (trace (snd (train_step (toy_ops score_zero) (toy_trainer 2 1 ''best'' False) 0
        (toy_batch [3]) 0 toy_world))) Backward = 0
   \<and> scale_or_backward (toy_ops score_zero) (toy_trainer 1 1 ''best'' False) (toy_batch [3]) 3 toy_world
     = (3, do_op Backward (backward (toy_ops score_zero) (toy_batch [3])) toy_world)
   \<and> count_list (trace (snd (train_step (toy_ops score_zero) (toy_trainer 1 1 ''best'' False) 0
        (toy_batch [3]) 0 toy_world))) Backward = 1"
  using backward_only_without_accumulation
          [where tr = "toy_trainer 2 1 ''best'' False" and ops = "toy_ops score_zero"
             and b = "toy_batch [3]" and loss = 3 and s = toy_world and step = 0 and tot = 0]
        backward_only_without_accumulation
          [where tr = "toy_trainer 1 1 ''best'' False" and ops = "toy_ops score_zero"
             and b = "toy_batch [3]" and loss = 3 and s = toy_world and step = 0 and tot = 0]
  by (simp add: toy_trainer_def toy_world_def)

text \<open>
  C1 as stated (backward exactly when the factor equals 1) fails for a factor below 1:
  with \<open>-1\<close> the batch is trained as with 1, with \<open>0\<close> the backward pass runs and the
  modulus raises afterwards.
\<close>

theorem backward_iff_one_counterexample:
  "gradient_accumulation_steps (toy_trainer (- 1) 1 ''best'' False) \<noteq> 1
   \<and> train_step (toy_ops score_zero) (toy_trainer (- 1) 1 ''best'' False) 0 (toy_batch [3]) 0 toy_world
     = (Inr 3, \<lparr>weights = 1, training = False, files = Map.empty,
                trace = [LossComputed 3, Backward, ClipGradNorm, OptimizerStep, SchedulerStep,
                         ZeroGrad]\<rparr>)
   \<and> gradient_accumulation_steps (toy_trainer 0 1 ''best'' False) \<noteq> 1
   \<and> train_step (toy_ops score_zero) (toy_trainer 0 1 ''best'' False) 0 (toy_batch [3]) 0 toy_world
     = (Inl ZeroDivisionError, \<lparr>weights = 0, training = False, files = Map.empty,
                trace = [LossComputed 3, Backward]\<rparr>)"
  by (simp add: train_step_def scale_or_backward_def optimizer_update_def Let_def
      toy_defs run_defs)

subsection \<open>The epoch loop, for any \<open>compute_hidden\<close>\<close>

lemma and_then_assoc:
  "and_then (and_then r f) g = and_then r (\<lambda>a s. and_then (f a s) g)"
  by (cases r; cases "fst r") (auto simp: and_then_def)

lemma and_then_return [simp]: "and_then (Inr a, s) f = f a s"
  by (simp add: and_then_def)

lemma and_then_raise [simp]: "and_then (Inl e, s) f = (Inl e, s)"
  by (simp add: and_then_def)

lemma train_epochs_append:
  "train_epochs ch ops tr tdl edl hl (es @ es') st s =
     and_then (train_epochs ch ops tr tdl edl hl es st s)
       (\<lambda>st' s'. train_epochs ch ops tr tdl edl hl es' st' s')"
proof (induction es arbitrary: st s)
  case Nil
  show ?case by simp
next
  case (Cons e es)
  have "train_epochs ch ops tr tdl edl hl (es @ es') =
          (\<lambda>a s. and_then (train_epochs ch ops tr tdl edl hl es a s)
                    (\<lambda>st' s'. train_epochs ch ops tr tdl edl hl es' st' s'))"
    by (intro ext) (rule Cons.IH)
  then show ?case by (simp add: and_then_assoc)
qed

lemma train_epochs_single:
  "train_epochs ch ops tr tdl edl hl [e] = train_epoch ch ops tr tdl edl hl e"
proof (intro ext)
  fix st s
  show "train_epochs ch ops tr tdl edl hl [e] st s = train_epoch ch ops tr tdl edl hl e st s"
    by (cases "train_epoch ch ops tr tdl edl hl e st s";
        cases "fst (train_epoch ch ops tr tdl edl hl e st s)") (auto simp: and_then_def)
qed

lemma train_epochs_Suc:
  "train_epochs ch ops tr tdl edl hl [0 ..< Suc k] st s =
     and_then (train_epochs ch ops tr tdl edl hl [0 ..< k] st s)
       (train_epoch ch ops tr tdl edl hl k)"
  using train_epochs_append [of ch ops tr tdl edl hl "[0 ..< k]" "[k]" st s]
  by (simp add: train_epochs_single)

lemma train_epochs_Suc_fun:
  "train_epochs ch ops tr tdl edl hl [0 ..< Suc k] =
     (\<lambda>st s. and_then (train_epochs ch ops tr tdl edl hl [0 ..< k] st s)
                (train_epoch ch ops tr tdl edl hl k))"
  by (intro ext) (rule train_epochs_Suc)

lemma train_loop_Suc:
  "train_loop ch ops tr dataloader hl config (Suc k) s =
     and_then (train_loop ch ops tr dataloader hl config k s)
       (train_epoch ch ops tr (the (map_of dataloader ''train''))
          (filter (\<lambda>(key, item). takeWhile (\<lambda>x. x \<noteq> CHR ''-'') key = ''dev'') dataloader)
          hl k)"
  unfolding train_loop_def
  by (simp add: train_epochs_Suc_fun select_eval_filter and_then_assoc del: upt_Suc
        split: option.splits)

lemma update_best_eq:
  "update_best tr d best s =
     (max best d,
      if d > best \<and> ckpt tr = ''best'' then torch_save (model_checkpoint tr ''best'') s else s)"
  by (auto simp: update_best_def max_def)

lemma train_epoch_Inr:
  assumes "train_epoch ch ops tr tdl edl hl e st s = (Inr st', s')"
  shows "\<exists>loss s1 d s4.
           train_one_epoch ops tr e tdl s = (Inr loss, s1)
         \<and> d = evaluate_classification ops (weights s1) edl
         \<and> train_snapshot ch ops tr hl (snd st)
              (emit (Evaluated (map fst edl) d) (emit (LogEpoch (e + 1) loss) s1)) = (Inr (snd st'), s4)
         \<and> update_best tr d (fst st) s4 = (fst st', s')"
  using assms unfolding train_epoch_def
  by (auto simp: and_then_Inr Let_def split_def)

lemma train_epoch_best:
  assumes "train_epoch ch ops tr tdl edl hl e st s = (Inr st', s')"
  shows "fst st \<le> fst st'"
proof -
  from train_epoch_Inr [OF assms] obtain d s4 where "update_best tr d (fst st) s4 = (fst st', s')"
    by blast
  then show ?thesis by (auto simp: update_best_eq)
qed

text \<open>
  C4. Within one call to \<open>train\<close>, whenever the loop has completed epoch \<open>k\<close> and then
  epoch \<open>k + 1\<close>, the value of \<open>best_dev_score\<close> after the later epoch is at least its
  value after the earlier one (\<open>train_loop \<dots> k\<close> is the call up to the end of its first
  \<open>k\<close> epochs). It holds whatever method \<open>compute_hidden\<close> is.
\<close>

theorem best_dev_score_monotone:
  assumes "train_loop ch ops tr dataloader hl config k s = (Inr (best, vis), s1)"
    and "train_loop ch ops tr dataloader hl config (Suc k) s = (Inr (best', vis'), s2)"
  shows "best \<le> best'"
proof -
  from assms(2) have "train_epoch ch ops tr (the (map_of dataloader ''train''))
      (filter (\<lambda>(key, item). takeWhile (\<lambda>x. x \<noteq> CHR ''-'') key = ''dev'') dataloader)
      hl k (best, vis) s1 = (Inr (best', vis'), s2)"
    unfolding train_loop_Suc using assms(1) by simp
  from train_epoch_best [OF this] show ?thesis by simp
qed

text \<open>
  C8 at the smallest failing input, one batch of one example: \<open>extend\<close> is called on the
  tensor, the call raises and the model stays in evaluation mode.
\<close>

theorem compute_hidden_raises_on_a_batch:
  "compute_hidden (toy_ops score_zero) [toy_batch [1]]
     \<lparr>weights = 0, training = True, files = Map.empty, trace = []\<rparr>
   = (Inl AttributeError, \<lparr>weights = 0, training = False, files = Map.empty, trace = [ModelEval]\<rparr>)"
  by (simp add: compute_hidden_Cons set_training_def emit_def)

lemmas train_defs = train_with_def train_loop_def train_finish_def train_persist_def
  train_epoch_def update_best_def train_snapshot_def train_baseline_def register_def
  train_one_epoch_def train_step_def scale_or_backward_def optimizer_update_def
  compute_hidden_def visualize_def first_piece_def model_checkpoint_def path_join_def
  path_join2_def py_len_def Let_def

lemma toy_loop_1:
  "fst (train_loop compute_hidden (toy_ops score_half_steps) (toy_trainer 1 2 ''best'' False)
          toy_loaders [toy_batch [1]] None (Suc 0) toy_world) = Inr (0, None)"
  by (simp add: train_defs toy_defs run_defs toy_loaders_def)

lemma toy_loop_2:
  "fst (train_loop compute_hidden (toy_ops score_half_steps) (toy_trainer 1 2 ''best'' False)
          toy_loaders [toy_batch [1]] None (Suc (Suc 0)) toy_world) = Inr (1 / 2, None)"
  by (simp add: train_defs toy_defs run_defs toy_loaders_def)

theorem best_dev_score_monotone_witness:
  "fst (train_loop compute_hidden (toy_ops score_half_steps) (toy_trainer 1 2 ''best'' False)
          toy_loaders [toy_batch [1]] None (Suc 0) toy_world) = Inr (0, None)
   \<and> fst (train_loop compute_hidden (toy_ops score_half_steps) (toy_trainer 1 2 ''best'' False)
          toy_loaders [toy_batch [1]] None (Suc (Suc 0)) toy_world) = Inr (1 / 2, None)
   \<and> (0 :: real) \<le> 1 / 2"
proof -
  obtain s1 where a: "train_loop compute_hidden (toy_ops score_half_steps)
      (toy_trainer 1 2 ''best'' False) toy_loaders [toy_batch [1]] None (Suc 0) toy_world
      = (Inr (0, None), s1)"
    using toy_loop_1 by (metis prod.collapse)
  obtain s2 where b: "train_loop compute_hidden (toy_ops score_half_steps)
      (toy_trainer 1 2 ''best'' False) toy_loaders [toy_batch [1]] None (Suc (Suc 0)) toy_world
      = (Inr (1 / 2, None), s2)"
    using toy_loop_2 by (metis prod.collapse)
  from best_dev_score_monotone [OF a b] toy_loop_1 toy_loop_2 show ?thesis by simp
qed

subsection \<open>The epoch loop of the base class\<close>

lemma training_event_ok: "training_event ev \<Longrightarrow> train_event_ok tr names ev"
  by (cases ev) simp_all

lemma mode_event_ok: "visualize_flag tr \<Longrightarrow> mode_event ev \<Longrightarrow> train_event_ok tr names ev"
  by (cases ev) simp_all

lemma files_emit [simp]: "files (emit ev s) = files s"
  by (simp add: emit_def)

lemma torch_save_simps [simp]:
  "trace (torch_save p s) = trace s @ [TorchSave p]"
  "files (torch_save p s) = (files s)(p \<mapsto> StateDict (weights s))"
  "weights (torch_save p s) = weights s"
  by (simp_all add: torch_save_def write_file_def emit_def)

lemma evolves_torch_save:
  assumes "P (TorchSave p)"
  shows "evolves P s (torch_save p s)"
  unfolding torch_save_def using assms by (intro evolves_write_file) simp_all

lemma evolves_train_snapshot:
  "evolves mode_event s (snd (train_snapshot compute_hidden ops tr hl vis s))"
proof (cases "visualize_flag tr")
  case True
  have "evolves mode_event s (snd (and_then (compute_hidden ops hl s)
          (\<lambda>(hidden_state, _, _) s'.
             (case vis of
                None \<Rightarrow> (Inl AttributeError, s')
              | Some v \<Rightarrow>
                  (case py_extend (hidden_hist v) (py_iter hidden_state) of
                     Inl e \<Rightarrow> (Inl e, s')
                   | Inr h \<Rightarrow> (Inr (Some (v\<lparr>hidden_hist := h\<rparr>)), s'))))))"
    by (rule evolves_and_then [OF evolves_compute_hidden])
       (auto split: option.splits sum.splits)
  with True show ?thesis by (simp add: train_snapshot_def)
next
  case False
  then show ?thesis by (simp add: train_snapshot_def)
qed

lemma train_snapshot_off [simp]:
  "\<not> visualize_flag tr \<Longrightarrow> train_snapshot ch ops tr hl vis s = (Inr vis, s)"
  by (simp add: train_snapshot_def)

lemma evolves_train_epoch:
  "evolves (train_event_ok tr (map fst edl)) s
     (snd (train_epoch compute_hidden ops tr tdl edl hl e st s))"
  unfolding train_epoch_def
proof (rule evolves_and_then)
  show "evolves (train_event_ok tr (map fst edl)) s (snd (train_one_epoch ops tr e tdl s))"
    by (rule evolves_mono [OF evolves_train_one_epoch training_event_ok])
next
  fix loss s1
  let ?P = "train_event_ok tr (map fst edl)"
  let ?d = "evaluate_classification ops (weights (emit (LogEpoch (e + 1) loss) s1)) edl"
  let ?s3 = "emit (Evaluated (map fst edl) ?d) (emit (LogEpoch (e + 1) loss) s1)"
  have a: "evolves ?P s1 ?s3"
    by (rule evolves_trans [OF evolves_emit evolves_emit]) simp_all
  have b: "evolves ?P ?s3 (snd (train_snapshot compute_hidden ops tr hl (snd st) ?s3))"
  proof (cases "visualize_flag tr")
    case True
    show ?thesis
      by (rule evolves_mono [OF evolves_train_snapshot mode_event_ok [OF True]])
  next
    case False
    then show ?thesis by simp
  qed
  have c: "\<And>d s4. evolves ?P s4 (snd (update_best tr d (fst st) s4))"
    by (simp add: update_best_def evolves_torch_save)
  show "evolves ?P s1
     (snd (let s2 = emit (LogEpoch (e + 1) loss) s1;
               dev_score = evaluate_classification ops (weights s2) edl;
               s3 = emit (Evaluated (map fst edl) dev_score) s2
           in and_then (train_snapshot compute_hidden ops tr hl (snd st) s3)
                (\<lambda>vis' s4. let (best', s5) = update_best tr dev_score (fst st) s4
                            in (Inr (best', vis'), s5))))"
    unfolding Let_def
    by (rule evolves_trans [OF a]) (rule evolves_and_then [OF b], simp add: split_def c)
qed

lemma evolves_train_epochs:
  "evolves (train_event_ok tr (map fst edl)) s
     (snd (train_epochs compute_hidden ops tr tdl edl hl es st s))"
proof (induction es arbitrary: st s)
  case Nil
  show ?case by simp
next
  case (Cons e es)
  show ?case
    unfolding train_epochs.simps
    by (rule evolves_and_then [OF evolves_train_epoch]) (rule Cons.IH)
qed

lemma quiet_train_one_epoch:
  "evolves quiet_event s (snd (train_one_epoch ops tr e tdl s))"
  by (rule evolves_mono [OF evolves_train_one_epoch training_event_quiet])

lemma quiet_train_snapshot:
  "evolves quiet_event s (snd (train_snapshot compute_hidden ops tr hl vis s))"
  by (rule evolves_mono [OF evolves_train_snapshot mode_event_quiet])

lemma weights_train_snapshot:
  "weights (snd (train_snapshot compute_hidden ops tr hl vis s)) = weights s"
  by (cases hl)
     (auto simp: train_snapshot_def compute_hidden_Nil compute_hidden_Cons set_training_def
        emit_def split: option.splits sum.splits)

text \<open>An epoch that completes: one more dev score, and the checkpoint on a new best.\<close>

lemma train_epoch_completes:
  assumes "train_epoch compute_hidden ops tr tdl edl hl e st s = (Inr st', s')"
  shows "\<exists>d. dev_scores (trace s') = dev_scores (trace s) @ [d]
           \<and> fst st' = max (fst st) d
           \<and> saves (trace s') = saves (trace s)
                @ (if d > fst st \<and> ckpt tr = ''best'' then [model_checkpoint tr ''best''] else [])
           \<and> files s' = (if d > fst st \<and> ckpt tr = ''best''
                          then (files s)(model_checkpoint tr ''best'' \<mapsto> StateDict (weights s'))
                          else files s)"
proof -
  from train_epoch_Inr [OF assms] obtain loss s1 d s4 where
    a: "train_one_epoch ops tr e tdl s = (Inr loss, s1)" and
    b: "train_snapshot compute_hidden ops tr hl (snd st)
          (emit (Evaluated (map fst edl) d) (emit (LogEpoch (e + 1) loss) s1)) = (Inr (snd st'), s4)" and
    c: "update_best tr d (fst st) s4 = (fst st', s')"
    by blast
  let ?s3 = "emit (Evaluated (map fst edl) d) (emit (LogEpoch (e + 1) loss) s1)"
  from quiet_train_one_epoch [of s ops tr e tdl] a have q1: "evolves quiet_event s s1" by simp
  from quiet_train_snapshot [of ?s3 ops tr hl "snd st"] b have q2: "evolves quiet_event ?s3 s4"
    by simp
  have t3: "dev_scores (trace ?s3) = dev_scores (trace s) @ [d]"
    "saves (trace ?s3) = saves (trace s)" "files ?s3 = files s"
    using evolves_quiet [OF q1] by simp_all
  have t4: "dev_scores (trace s4) = dev_scores (trace s) @ [d]"
    "saves (trace s4) = saves (trace s)" "files s4 = files s"
    using evolves_quiet [OF q2] t3 by simp_all
  from c have best: "fst st' = max (fst st) d"
    and s': "s' = (if d > fst st \<and> ckpt tr = ''best''
                   then torch_save (model_checkpoint tr ''best'') s4 else s4)"
    by (simp_all add: update_best_eq)
  show ?thesis
    by (rule exI [of _ d]) (use t4 best s' in auto)
qed

text \<open>An epoch that raises: no checkpoint is written in it.\<close>

lemma train_epoch_raises:
  assumes "train_epoch compute_hidden ops tr tdl edl hl e st s = (Inl err, s')"
  shows "saves (trace s') = saves (trace s) \<and> files s' = files s"
proof -
  from assms have
    "train_one_epoch ops tr e tdl s = (Inl err, s')
     \<or> (\<exists>loss s1 d. train_one_epoch ops tr e tdl s = (Inr loss, s1)
          \<and> train_snapshot compute_hidden ops tr hl (snd st)
               (emit (Evaluated (map fst edl) d) (emit (LogEpoch (e + 1) loss) s1)) = (Inl err, s'))"
    unfolding train_epoch_def by (auto simp: and_then_Inl Let_def split_def)
  then show ?thesis
  proof
    assume a: "train_one_epoch ops tr e tdl s = (Inl err, s')"
    from quiet_train_one_epoch [of s ops tr e tdl] a have "evolves quiet_event s s'" by simp
    from evolves_quiet [OF this] show ?thesis by simp
  next
    assume "\<exists>loss s1 d. train_one_epoch ops tr e tdl s = (Inr loss, s1)
          \<and> train_snapshot compute_hidden ops tr hl (snd st)
               (emit (Evaluated (map fst edl) d) (emit (LogEpoch (e + 1) loss) s1)) = (Inl err, s')"
    then obtain loss s1 d where
      a: "train_one_epoch ops tr e tdl s = (Inr loss, s1)" and
      b: "train_snapshot compute_hidden ops tr hl (snd st)
            (emit (Evaluated (map fst edl) d) (emit (LogEpoch (e + 1) loss) s1)) = (Inl err, s')"
      by blast
    let ?s3 = "emit (Evaluated (map fst edl) d) (emit (LogEpoch (e + 1) loss) s1)"
    from quiet_train_one_epoch [of s ops tr e tdl] a have q1: "evolves quiet_event s s1" by simp
    from quiet_train_snapshot [of ?s3 ops tr hl "snd st"] b have q2: "evolves quiet_event ?s3 s'"
      by simp
    show ?thesis using evolves_quiet [OF q1] evolves_quiet [OF q2] by simp
  qed
qed

lemma setup_event_quiet: "setup_event ev \<Longrightarrow> quiet_event ev"
  by (cases ev) simp_all

lemma setup_event_ok: "setup_event ev \<Longrightarrow> train_event_ok tr names ev"
  by (cases ev) simp_all

lemma evolves_steps:
  assumes "evolves P s s1" and "trace s1 = trace s @ e1"
  shows "list_all P e1" and "\<And>p. p \<notin> set (touched_paths e1) \<Longrightarrow> files s1 p = files s p"
  using assms unfolding evolves_def by auto

lemma train_epochs_scores:
  assumes "train_epochs compute_hidden ops tr tdl edl hl es st s = (Inr st', s')"
  shows "\<exists>ds. length ds = length es
           \<and> dev_scores (trace s') = dev_scores (trace s) @ ds
           \<and> fst st' = fold max ds (fst st)"
  using assms
proof (induction es arbitrary: st s)
  case Nil
  then show ?case by simp
next
  case (Cons e es)
  from Cons.prems obtain st1 s1 where
    a: "train_epoch compute_hidden ops tr tdl edl hl e st s = (Inr st1, s1)" and
    b: "train_epochs compute_hidden ops tr tdl edl hl es st1 s1 = (Inr st', s')"
    by (auto simp: and_then_Inr)
  from train_epoch_completes [OF a] obtain d where
    d: "dev_scores (trace s1) = dev_scores (trace s) @ [d]" "fst st1 = max (fst st) d"
    by blast
  from Cons.IH [OF b] obtain ds where
    ds: "length ds = length es" "dev_scores (trace s') = dev_scores (trace s1) @ ds"
      "fst st' = fold max ds (fst st1)"
    by blast
  show ?case
    by (rule exI [of _ "d # ds"]) (use d ds in \<open>simp add: max.commute\<close>)
qed

lemma train_epochs_other_policy:
  assumes "ckpt tr \<noteq> ''best''"
  shows "saves (trace (snd (train_epochs compute_hidden ops tr tdl edl hl es st s))) = saves (trace s)
       \<and> files (snd (train_epochs compute_hidden ops tr tdl edl hl es st s)) = files s"
proof (induction es arbitrary: st s)
  case Nil
  show ?case by simp
next
  case (Cons e es)
  obtain r s1 where r: "train_epoch compute_hidden ops tr tdl edl hl e st s = (r, s1)"
    by (cases "train_epoch compute_hidden ops tr tdl edl hl e st s")
  show ?case
  proof (cases r)
    case (Inl err)
    with r train_epoch_raises [of ops tr tdl edl hl e st s err s1] show ?thesis by simp
  next
    case (Inr st1)
    with r train_epoch_completes [of ops tr tdl edl hl e st s st1 s1] assms
    have "saves (trace s1) = saves (trace s)" "files s1 = files s" by auto
    with r Inr Cons.IH [of st1 s1] show ?thesis by simp
  qed
qed


subsection \<open>Before and after the epoch loop\<close>

lemma persist_event_ok: "visualize_flag tr \<Longrightarrow> persist_event ev \<Longrightarrow> train_event_ok tr names ev"
  by (cases ev) simp_all


lemma evolves_register: "evolves setup_event s (snd (register ops tr dataloader s))"
proof -
  let ?s1 = "set_training True s"
  let ?s2 = "do_op ZeroGrad (zero_grad ops) ?s1"
  have a: "evolves setup_event s ?s2"
    by (rule evolves_trans [OF evolves_set_training evolves_do_op]) simp_all
  have b: "\<And>x y. evolves setup_event s (do_op (MakeOptimizer x y) (make_optimizer ops x y) ?s2)"
    by (rule evolves_trans [OF a evolves_do_op]) simp_all
  show ?thesis using a b by (simp add: register_def Let_def split: option.splits)
qed

lemma evolves_train_baseline:
  "evolves mode_event s (snd (train_baseline compute_hidden ops tr hl config s))"
proof (cases "visualize_flag tr \<and> config \<noteq> None")
  case True
  then obtain c where c: "config = Some c" by auto
  have "evolves mode_event s (snd (and_then (compute_hidden ops hl s)
      (\<lambda>(hidden_state, labels, poison_labels) s'.
          (Inr (Some \<lparr>poison_method = poisoner_name c,
                      poison_rate_str = poison_rate c,
                      poison_setting = (if label_consistency c then ''clean'' else ''dirty''),
                      hidden_hist = hidden_state,
                      labels_hist = labels,
                      poison_labels_hist = poison_labels\<rparr>), s'))))"
    by (rule evolves_and_then [OF evolves_compute_hidden]) (simp add: split_def)
  with True c show ?thesis by (simp add: train_baseline_def)
next
  case False
  then show ?thesis by (auto simp: train_baseline_def split: option.splits)
qed

lemma train_baseline_returns:
  assumes "train_baseline compute_hidden ops tr hl config s = (Inr vis, s')"
  shows "if visualize_flag tr
         then hl = [] \<and> (\<exists>v. vis = Some v \<and> labels_hist v = [] \<and> hidden_hist v = PyList [])
         else vis = None \<and> s' = s"
proof (cases "visualize_flag tr")
  case False
  with assms show ?thesis by (simp add: train_baseline_def)
next
  case True
  with assms obtain c where c: "config = Some c"
    by (cases config) (simp_all add: train_baseline_def)
  from assms True c obtain r s1 where r: "compute_hidden ops hl s = (Inr r, s1)"
    by (auto simp: train_baseline_def and_then_Inr)
  from compute_hidden_returns [OF r] have hl: "hl = []" and rv: "r = (PyList [], [], [])"
    by simp_all
  from assms True c r rv have "\<exists>v. vis = Some v \<and> labels_hist v = [] \<and> hidden_hist v = PyList []"
    by (auto simp: train_baseline_def)
  with True hl show ?thesis by simp
qed

lemma train_snapshot_labels:
  assumes "train_snapshot ch ops tr hl vis s = (Inr vis', s')"
  shows "labels_of vis' = labels_of vis"
proof (cases "visualize_flag tr")
  case False
  with assms show ?thesis by (simp add: train_snapshot_def)
next
  case True
  with assms obtain h s1 where
    f: "(case vis of
           None \<Rightarrow> (Inl AttributeError, s1)
         | Some v \<Rightarrow>
             (case py_extend (hidden_hist v) (py_iter h) of
                Inl e \<Rightarrow> (Inl e, s1)
              | Inr h' \<Rightarrow> (Inr (Some (v\<lparr>hidden_hist := h'\<rparr>)), s1))) = (Inr vis', s')"
    by (auto simp: train_snapshot_def and_then_Inr)
  show ?thesis
  proof (cases vis)
    case None
    with f show ?thesis by simp
  next
    case (Some v)
    with f show ?thesis
      by (cases "py_extend (hidden_hist v) (py_iter h)") (auto simp: labels_of_def)
  qed
qed

lemma train_epoch_labels:
  assumes "train_epoch ch ops tr tdl edl hl e st s = (Inr st', s')"
  shows "labels_of (snd st') = labels_of (snd st)"
  using train_epoch_Inr [OF assms] train_snapshot_labels by blast

lemma train_epochs_labels:
  assumes "train_epochs ch ops tr tdl edl hl es st s = (Inr st', s')"
  shows "labels_of (snd st') = labels_of (snd st)"
  using assms
proof (induction es arbitrary: st s)
  case Nil
  then show ?case by simp
next
  case (Cons e es)
  from Cons.prems obtain st1 s1 where
    a: "train_epoch ch ops tr tdl edl hl e st s = (Inr st1, s1)" and
    b: "train_epochs ch ops tr tdl edl hl es st1 s1 = (Inr st', s')"
    by (auto simp: and_then_Inr)
  from train_epoch_labels [OF a] Cons.IH [OF b] show ?case by simp
qed

lemma evolves_visualize_epochs:
  "evolves persist_event s (snd (visualize_epochs nc fb es s))"
proof (induction es arbitrary: s)
  case Nil
  show ?case by simp
next
  case (Cons e es)
  let ?png = "path_join fb [''epoch_'' @ str_nat e @ ''.png'']"
  let ?s1 = "write_file (SaveFig ?png) ?png Png (emit (MakeDirs fb) s)"
  have "evolves persist_event s (emit (MakeDirs fb) s)"
    unfolding evolves_def by (intro exI [of _ "[MakeDirs fb]"]) simp
  moreover have "evolves persist_event (emit (MakeDirs fb) s) ?s1"
    by (rule evolves_write_file) simp_all
  ultimately have "evolves persist_event s ?s1" by (rule evolves_trans)
  from evolves_trans [OF this Cons.IH [of ?s1]] show ?case by (simp add: Let_def)
qed

lemma evolves_emit_touching:
  assumes "P ev"
  shows "evolves P s (emit ev s)"
  unfolding evolves_def using assms by (intro exI [of _ "[ev]"]) simp

lemma evolves_visualize:
  "evolves persist_event s (snd (visualize h ls pls fb s))"
proof -
  let ?s0 = "emit (VisualizeCalled (py_len h) (length ls)) s"
  have a: "evolves persist_event s ?s0" by (rule evolves_emit_touching) simp
  show ?thesis
  proof (cases "length ls = 0")
    case True
    with a show ?thesis by (simp add: visualize_def Let_def)
  next
    case False
    with evolves_trans [OF a evolves_visualize_epochs] show ?thesis
      by (simp add: visualize_def Let_def)
  qed
qed

lemma evolves_np_save: "evolves persist_event s (np_save p s)"
  unfolding np_save_def by (rule evolves_write_file) simp_all

lemma evolves_train_persist:
  "evolves (\<lambda>ev. visualize_flag tr \<and> persist_event ev) s (snd (train_persist vis tr s))"
proof (cases "visualize_flag tr")
  case False
  then show ?thesis by (simp add: train_persist_def)
next
  case True
  show ?thesis
  proof (cases vis)
    case None
    with True show ?thesis by (simp add: train_persist_def)
  next
    case (Some v)
    let ?pieces = "[poison_setting v, poison_method v, poison_rate_str v]"
    let ?hp = "path_join ''./hidden_states'' ?pieces"
    let ?s1 = "emit (MakeDirs ?hp) s"
    let ?s2 = "np_save (path_join ?hp [''hidden_states.npy'']) ?s1"
    let ?s3 = "np_save (path_join ?hp [''labels.npy'']) ?s2"
    let ?s4 = "np_save (path_join ?hp [''poison_labels.npy'']) ?s3"
    have "evolves persist_event s ?s1" by (rule evolves_emit_touching) simp
    from evolves_trans [OF this evolves_np_save] have "evolves persist_event s ?s2" .
    from evolves_trans [OF this evolves_np_save] have "evolves persist_event s ?s3" .
    from evolves_trans [OF this evolves_np_save] have "evolves persist_event s ?s4" .
    from evolves_trans [OF this evolves_visualize]
    have "evolves persist_event s (snd (train_persist vis tr s))"
      using True Some by (simp add: train_persist_def Let_def)
    then show ?thesis by (rule evolves_mono) (simp add: True)
  qed
qed

lemma train_persist_base:
  assumes "visualize_flag tr" and "labels_of vis = Some []"
  shows "fst (train_persist vis tr s) = Inl ZeroDivisionError"
  using assms by (auto simp: train_persist_def labels_of_def visualize_def Let_def)

lemma train_persist_off [simp]:
  "\<not> visualize_flag tr \<Longrightarrow> train_persist vis tr s = (Inr (), s)"
  by (simp add: train_persist_def)

subsection \<open>The whole call\<close>

lemma evolves_train_baseline_ok:
  "evolves (train_event_ok tr names) s (snd (train_baseline compute_hidden ops tr hl config s))"
proof (cases "visualize_flag tr")
  case True
  show ?thesis by (rule evolves_mono [OF evolves_train_baseline mode_event_ok [OF True]])
next
  case False
  then show ?thesis by (simp add: train_baseline_def)
qed

lemma evolves_train_loop:
  "evolves (train_event_ok tr (dev_names dataloader)) s
     (snd (train_loop compute_hidden ops tr dataloader hl config k s))"
proof (cases "map_of dataloader ''train''")
  case None
  then show ?thesis by (simp add: train_loop_def)
next
  case (Some tdl)
  let ?edl = "filter (\<lambda>(key, item). takeWhile (\<lambda>x. x \<noteq> CHR ''-'') key = ''dev'') dataloader"
  let ?P = "train_event_ok tr (dev_names dataloader)"
  have names: "dev_names dataloader = map fst ?edl" by (simp add: dev_names_def)
  have "evolves ?P s (snd (and_then (register ops tr dataloader s)
          (\<lambda>_ s1. and_then (train_baseline compute_hidden ops tr hl config s1)
             (\<lambda>vis s2. train_epochs compute_hidden ops tr tdl ?edl hl [0 ..< k] (0, vis) s2))))"
  proof (rule evolves_and_then)
    show "evolves ?P s (snd (register ops tr dataloader s))"
      by (rule evolves_mono [OF evolves_register setup_event_ok])
  next
    fix a s1
    show "evolves ?P s1 (snd (and_then (train_baseline compute_hidden ops tr hl config s1)
             (\<lambda>vis s2. train_epochs compute_hidden ops tr tdl ?edl hl [0 ..< k] (0, vis) s2)))"
      by (rule evolves_and_then [OF evolves_train_baseline_ok])
         (simp only: names evolves_train_epochs)
  qed
  with Some show ?thesis by (simp add: train_loop_def select_eval_filter)
qed

lemma train_loop_outcome:
  assumes "train_loop compute_hidden ops tr dataloader hl config k s = (r, s')"
  shows "(evolves quiet_event s s' \<and> (\<exists>err. r = Inl err))
       \<or> (\<exists>tdl vis s2. map_of dataloader ''train'' = Some tdl
            \<and> evolves quiet_event s s2
            \<and> (if visualize_flag tr then hl = [] \<and> labels_of vis = Some [] else vis = None)
            \<and> train_epochs compute_hidden ops tr tdl
                 (filter (\<lambda>(key, item). takeWhile (\<lambda>x. x \<noteq> CHR ''-'') key = ''dev'') dataloader)
                 hl [0 ..< k] (0, vis) s2 = (r, s'))"
proof (cases "map_of dataloader ''train''")
  case None
  with assms show ?thesis by (auto simp: train_loop_def)
next
  case (Some tdl)
  let ?edl = "filter (\<lambda>(key, item). takeWhile (\<lambda>x. x \<noteq> CHR ''-'') key = ''dev'') dataloader"
  obtain r1 s1 where r1: "register ops tr dataloader s = (r1, s1)"
    by (cases "register ops tr dataloader s")
  have "evolves quiet_event s (snd (register ops tr dataloader s))"
    by (rule evolves_mono [OF evolves_register setup_event_quiet])
  with r1 have q1: "evolves quiet_event s s1" by simp
  show ?thesis
  proof (cases r1)
    case (Inl err)
    with assms Some r1 q1 show ?thesis by (auto simp: train_loop_def select_eval_filter)
  next
    case (Inr u)
    obtain r2 s2 where r2: "train_baseline compute_hidden ops tr hl config s1 = (r2, s2)"
      by (cases "train_baseline compute_hidden ops tr hl config s1")
    have "evolves quiet_event s1 (snd (train_baseline compute_hidden ops tr hl config s1))"
      by (rule evolves_mono [OF evolves_train_baseline mode_event_quiet])
    with r2 have "evolves quiet_event s1 s2" by simp
    with q1 have q2: "evolves quiet_event s s2" by (rule evolves_trans)
    show ?thesis
    proof (cases r2)
      case (Inl err)
      with assms Some r1 Inr r2 q2 show ?thesis by (auto simp: train_loop_def select_eval_filter)
    next
      case (Inr vis)
      with r2 train_baseline_returns [of ops tr hl config s1 vis s2]
      have v: "if visualize_flag tr then hl = [] \<and> labels_of vis = Some [] else vis = None"
        by (auto simp: labels_of_def split: if_splits)
      from assms Some r1 \<open>r1 = Inr u\<close> r2 Inr
      have "train_epochs compute_hidden ops tr tdl ?edl hl [0 ..< k] (0, vis) s2 = (r, s')"
        by (simp add: train_loop_def select_eval_filter)
      with Some q2 v show ?thesis by blast
    qed
  qed
qed

lemma fold_max_Max: "fold max ds (b :: real) = Max (set (b # ds))"
  using Max.set_eq_fold [of b ds] by simp

lemma train_loop_scores:
  assumes "train_loop compute_hidden ops tr dataloader hl config k s = (Inr st, s')"
  shows "\<exists>ds. length ds = k \<and> dev_scores (trace s') = dev_scores (trace s) @ ds
          \<and> fst st = Max (set (0 # ds))"
proof -
  from train_loop_outcome [OF assms] obtain tdl vis s2 where
    q: "evolves quiet_event s s2" and
    e: "train_epochs compute_hidden ops tr tdl
          (filter (\<lambda>(key, item). takeWhile (\<lambda>x. x \<noteq> CHR ''-'') key = ''dev'') dataloader)
          hl [0 ..< k] (0, vis) s2 = (Inr st, s')"
    by auto
  from train_epochs_scores [OF e] obtain ds where
    "length ds = k" "dev_scores (trace s') = dev_scores (trace s2) @ ds" "fst st = fold max ds 0"
    by auto
  with evolves_quiet [OF q] show ?thesis by (auto simp: fold_max_Max)
qed

lemma new_events_append:
  assumes "trace s' = trace s @ evs"
  shows "new_events s s' = evs"
  using assms by (simp add: new_events_def)

text \<open>
  C3, as amended. Under the policy \<open>best\<close>, when the loop has completed \<open>k\<close> epochs with
  dev scores \<open>ds\<close> and then completes the next epoch with dev score \<open>d\<close>, the best checkpoint
  is written in that epoch (and then holds the current parameters) if and only if \<open>d\<close>
  strictly exceeds the running best, the maximum of the initial value 0 and of \<open>ds\<close>;
  otherwise the epoch writes nothing and leaves every file as it was.
\<close>

theorem best_checkpoint_written_iff:
  assumes "ckpt tr = ''best''"
    and "train_loop compute_hidden ops tr dataloader hl config k s = (Inr (best, vis), s1)"
    and "train_loop compute_hidden ops tr dataloader hl config (Suc k) s = (Inr (best', vis'), s2)"
  shows "\<exists>ds d. length ds = k
           \<and> dev_scores (new_events s s1) = ds
           \<and> dev_scores (new_events s s2) = ds @ [d]
           \<and> (if d > Max (set (0 # ds))
               then saves (new_events s s2) = saves (new_events s s1) @ [model_checkpoint tr ''best'']
                  \<and> files s2 = (files s1)(model_checkpoint tr ''best'' \<mapsto> StateDict (weights s2))
               else saves (new_events s s2) = saves (new_events s s1) \<and> files s2 = files s1)"
proof -
  let ?edl = "filter (\<lambda>(key, item). takeWhile (\<lambda>x. x \<noteq> CHR ''-'') key = ''dev'') dataloader"
  have "evolves (train_event_ok tr (dev_names dataloader)) s
          (snd (train_loop compute_hidden ops tr dataloader hl config k s))"
    by (rule evolves_train_loop)
  with assms(2) have "evolves (train_event_ok tr (dev_names dataloader)) s s1" by simp
  then have t1: "trace s1 = trace s @ new_events s s1" by (rule evolves_new_events(1))
  have "evolves (train_event_ok tr (dev_names dataloader)) s
          (snd (train_loop compute_hidden ops tr dataloader hl config (Suc k) s))"
    by (rule evolves_train_loop)
  with assms(3) have "evolves (train_event_ok tr (dev_names dataloader)) s s2" by simp
  then have t2: "trace s2 = trace s @ new_events s s2" by (rule evolves_new_events(1))
  from train_loop_scores [OF assms(2)] obtain ds where
    ds: "length ds = k" "dev_scores (trace s1) = dev_scores (trace s) @ ds"
      "best = Max (set (0 # ds))"
    by auto
  have "train_epoch compute_hidden ops tr (the (map_of dataloader ''train'')) ?edl hl k
          (best, vis) s1 = (Inr (best', vis'), s2)"
    using assms(3) unfolding train_loop_Suc using assms(2) by simp
  from train_epoch_completes [OF this] assms(1) obtain d where
    d: "dev_scores (trace s2) = dev_scores (trace s1) @ [d]"
      "saves (trace s2) = saves (trace s1)
         @ (if d > best then [model_checkpoint tr ''best''] else [])"
      "files s2 = (if d > best
                   then (files s1)(model_checkpoint tr ''best'' \<mapsto> StateDict (weights s2))
                   else files s1)"
    by auto
  have n1: "dev_scores (new_events s s1) = ds"
    using ds(2) by (subst (asm) t1) simp
  have n2: "dev_scores (new_events s s2) = ds @ [d]"
    using d(1) ds(2) by (subst (asm) t2) simp
  have n3: "saves (new_events s s2) = saves (new_events s s1)
              @ (if d > best then [model_checkpoint tr ''best''] else [])"
    using d(2) by (subst (asm) t2, subst (asm) t1) simp
  show ?thesis
    by (rule exI [of _ ds], rule exI [of _ d]) (use ds(1,3) n1 n2 n3 d(3) in auto)
qed

lemma toy_best_1:
  "train_loop compute_hidden (toy_ops score_half_steps) (toy_trainer 1 2 ''best'' False)
     toy_loaders [toy_batch [1]] None (Suc 0) toy_world = (Inr (0, None), toy_after_1)"
  by (simp add: train_defs toy_defs run_defs toy_loaders_def toy_after_1_def)

lemma toy_best_2:
  "train_loop compute_hidden (toy_ops score_half_steps) (toy_trainer 1 2 ''best'' False)
     toy_loaders [toy_batch [1]] None (Suc (Suc 0)) toy_world = (Inr (1 / 2, None), toy_after_2)"
  by (simp add: train_defs toy_defs run_defs toy_loaders_def toy_after_2_def)

theorem best_checkpoint_written_iff_witness:
  "ckpt (toy_trainer 1 2 ''best'' False) = ''best''
   \<and> train_loop compute_hidden (toy_ops score_half_steps) (toy_trainer 1 2 ''best'' False)
        toy_loaders [toy_batch [1]] None (Suc 0) toy_world = (Inr (0, None), toy_after_1)
   \<and> train_loop compute_hidden (toy_ops score_half_steps) (toy_trainer 1 2 ''best'' False)
        toy_loaders [toy_batch [1]] None (Suc (Suc 0)) toy_world = (Inr (1 / 2, None), toy_after_2)
   \<and> (\<exists>ds d. length ds = Suc 0
         \<and> dev_scores (new_events toy_world toy_after_1) = ds
         \<and> dev_scores (new_events toy_world toy_after_2) = ds @ [d]
         \<and> (if d > Max (set (0 # ds))
             then saves (new_events toy_world toy_after_2) =
                    saves (new_events toy_world toy_after_1)
                    @ [model_checkpoint (toy_trainer 1 2 ''best'' False) ''best'']
                \<and> files toy_after_2 =
                    (files toy_after_1)(model_checkpoint (toy_trainer 1 2 ''best'' False) ''best''
                       \<mapsto> StateDict (weights toy_after_2))
             else saves (new_events toy_world toy_after_2) =
                    saves (new_events toy_world toy_after_1)
                \<and> files toy_after_2 = files toy_after_1))
   \<and> saves (new_events toy_world toy_after_1) = []
   \<and> saves (new_events toy_world toy_after_2) = [''./models/checkpoints/0/best.ckpt'']"
proof -
  have c: "ckpt (toy_trainer 1 2 ''best'' False) = ''best''" by (simp add: toy_trainer_def)
  have s: "saves (new_events toy_world toy_after_1) = []"
    "saves (new_events toy_world toy_after_2) = [''./models/checkpoints/0/best.ckpt'']"
    by (simp_all add: new_events_def toy_world_def toy_after_1_def toy_after_2_def)
  from best_checkpoint_written_iff [OF c toy_best_1 toy_best_2] c toy_best_1 toy_best_2 s
  show ?thesis by blast
qed

text \<open>
  C3 as stated fails where the dev scores do not exceed the initial value 0. In the first
  epoch of this run the dev score is 0: no earlier epoch has a higher one, and still no
  checkpoint is written. In the second run the scores are \<open>-1\<close> and then \<open>-1/2\<close>: the
  second exceeds every earlier score, and still no checkpoint is written.
\<close>

theorem best_checkpoint_counterexample:
  "ckpt (toy_trainer 1 2 ''best'' False) = ''best''
   \<and> train_loop compute_hidden (toy_ops score_half_steps) (toy_trainer 1 2 ''best'' False)
        toy_loaders [toy_batch [1]] None (Suc 0) toy_world = (Inr (0, None), toy_after_1)
   \<and> dev_scores (trace toy_after_1) = [0]
   \<and> saves (trace toy_after_1) = []
   \<and> files toy_after_1 = Map.empty
   \<and> fst (train_loop compute_hidden (toy_ops score_negative) (toy_trainer 1 2 ''best'' False)
        toy_loaders [toy_batch [1]] None (Suc (Suc 0)) toy_world) = Inr (0, None)
   \<and> dev_scores (trace (snd (train_loop compute_hidden (toy_ops score_negative)
        (toy_trainer 1 2 ''best'' False) toy_loaders [toy_batch [1]] None (Suc (Suc 0)) toy_world)))
      = [- 1, - 1 / 2]
   \<and> saves (trace (snd (train_loop compute_hidden (toy_ops score_negative)
        (toy_trainer 1 2 ''best'' False) toy_loaders [toy_batch [1]] None (Suc (Suc 0)) toy_world)))
      = []"
proof -
  have a: "ckpt (toy_trainer 1 2 ''best'' False) = ''best''" by (simp add: toy_trainer_def)
  have b: "dev_scores (trace toy_after_1) = [0]" "saves (trace toy_after_1) = []"
    "files toy_after_1 = Map.empty"
    by (simp_all add: toy_after_1_def)
  have c: "train_loop compute_hidden (toy_ops score_negative) (toy_trainer 1 2 ''best'' False)
        toy_loaders [toy_batch [1]] None (Suc (Suc 0)) toy_world =
      (Inr (0, None),
       \<lparr>weights = 2, training = True, files = Map.empty,
        trace = [ModelTrain, ZeroGrad, MakeOptimizer 3 5, ModelTrain, LossComputed 1, Backward,
               ClipGradNorm, OptimizerStep, SchedulerStep, ZeroGrad, LogEpoch 1 1,
               Evaluated [''dev''] (- 1),
               ModelTrain, LossComputed 1, Backward,
               ClipGradNorm, OptimizerStep, SchedulerStep, ZeroGrad, LogEpoch 2 1,
               Evaluated [''dev''] (- 1 / 2)]\<rparr>)"
    by (simp add: train_defs toy_defs run_defs toy_loaders_def score_negative_def)
  show ?thesis using a b toy_best_1 by (simp add: c)
qed

lemma evolves_set_weights [simp]: "evolves P s (s\<lparr>weights := w\<rparr>)"
  unfolding evolves_def by (intro exI [of _ "[]"]) simp

lemma evolves_torch_load:
  assumes "P (TorchLoad p)"
  shows "evolves P s (snd (torch_load p s))"
  using assms by (auto simp: torch_load_def evolves_emit split: option.splits content.splits)

lemma evolves_train_finish:
  "evolves (train_event_ok tr names) s (snd (train_finish tr s))"
proof -
  let ?P = "train_event_ok tr names"
  let ?p = "model_checkpoint tr (ckpt tr)"
  let ?s1 = "if ckpt tr = ''last'' then torch_save ?p s else s"
  have a: "evolves ?P s ?s1" by (simp add: evolves_torch_save)
  have "evolves ?P ?s1 (snd (and_then (torch_load ?p ?s1)
          (\<lambda>state_dict s2. (Inr state_dict, s2\<lparr>weights := state_dict\<rparr>))))"
    by (rule evolves_and_then [OF evolves_torch_load]) simp_all
  from evolves_trans [OF a this] show ?thesis by (simp add: train_finish_def Let_def)
qed

lemma evolves_train_persist_ok:
  "evolves (train_event_ok tr names) s (snd (train_persist vis tr s))"
  by (rule evolves_mono [OF evolves_train_persist]) (simp add: persist_event_ok)

lemma evolves_train:
  "evolves (train_event_ok tr (dev_names dataloader)) s
     (snd (train ops tr dataloader hl config s))"
  unfolding train_def train_with_def
  by (rule evolves_and_then [OF evolves_train_loop])
     (rule evolves_and_then [OF evolves_train_persist_ok], rule evolves_train_finish)

lemma train_unfold:
  "train ops tr dataloader hl config s =
     and_then (train_loop compute_hidden ops tr dataloader hl config (nat (epochs tr)) s)
       (\<lambda>st s3. and_then (train_persist (snd st) tr s3) (\<lambda>_ s4. train_finish tr s4))"
  by (simp add: train_def train_with_def)

lemma train_loop_labels:
  assumes "train_loop compute_hidden ops tr dataloader hl config k s = (Inr st, s')"
    and "visualize_flag tr"
  shows "labels_of (snd st) = Some []"
proof -
  from train_loop_outcome [OF assms(1)] assms(2) obtain tdl vis s2 where
    v: "labels_of vis = Some []" and
    e: "train_epochs compute_hidden ops tr tdl
          (filter (\<lambda>(key, item). takeWhile (\<lambda>x. x \<noteq> CHR ''-'') key = ''dev'') dataloader)
          hl [0 ..< k] (0, vis) s2 = (Inr st, s')"
    by auto
  from train_epochs_labels [OF e] v show ?thesis by simp
qed

text \<open>With the base \<open>compute_hidden\<close>, a call with visualisation on never returns.\<close>

lemma train_visualize_raises:
  assumes "visualize_flag tr"
  shows "\<exists>err. fst (train ops tr dataloader hl config s) = Inl err"
proof -
  obtain r s3 where l: "train_loop compute_hidden ops tr dataloader hl config (nat (epochs tr)) s = (r, s3)"
    by (cases "train_loop compute_hidden ops tr dataloader hl config (nat (epochs tr)) s")
  show ?thesis
  proof (cases r)
    case (Inl err)
    with l show ?thesis by (simp add: train_unfold)
  next
    case (Inr st)
    with l train_loop_labels [of ops tr dataloader hl config "nat (epochs tr)" s st s3] assms
    have "labels_of (snd st) = Some []" by simp
    from train_persist_base [OF assms this, of s3]
    obtain s4 where "train_persist (snd st) tr s3 = (Inl ZeroDivisionError, s4)"
      by (cases "train_persist (snd st) tr s3") auto
    with l Inr show ?thesis by (simp add: train_unfold)
  qed
qed

lemma train_returns:
  assumes "train ops tr dataloader hl config s = (Inr w, s')"
  shows "\<not> visualize_flag tr
       \<and> (\<exists>st s3. train_loop compute_hidden ops tr dataloader hl config (nat (epochs tr)) s
                     = (Inr st, s3)
            \<and> train_finish tr s3 = (Inr w, s'))"
proof -
  have nv: "\<not> visualize_flag tr"
    using train_visualize_raises [of tr ops dataloader hl config s] assms by auto
  from assms obtain st s3 where
    "train_loop compute_hidden ops tr dataloader hl config (nat (epochs tr)) s = (Inr st, s3)"
    "and_then (train_persist (snd st) tr s3) (\<lambda>_ s4. train_finish tr s4) = (Inr w, s')"
    unfolding train_unfold by (auto simp: and_then_Inr)
  with nv show ?thesis by auto
qed

lemma train_loop_other_policy:
  assumes "ckpt tr \<noteq> ''best''"
  shows "saves (trace (snd (train_loop compute_hidden ops tr dataloader hl config k s))) = saves (trace s)
       \<and> files (snd (train_loop compute_hidden ops tr dataloader hl config k s)) = files s"
proof -
  obtain r s' where l: "train_loop compute_hidden ops tr dataloader hl config k s = (r, s')"
    by (cases "train_loop compute_hidden ops tr dataloader hl config k s")
  from train_loop_outcome [OF l] show ?thesis
  proof
    assume "evolves quiet_event s s' \<and> (\<exists>err. r = Inl err)"
    with l evolves_quiet [of s s'] show ?thesis by simp
  next
    assume "\<exists>tdl vis s2. map_of dataloader ''train'' = Some tdl
            \<and> evolves quiet_event s s2
            \<and> (if visualize_flag tr then hl = [] \<and> labels_of vis = Some [] else vis = None)
            \<and> train_epochs compute_hidden ops tr tdl
                 (filter (\<lambda>(key, item). takeWhile (\<lambda>x. x \<noteq> CHR ''-'') key = ''dev'') dataloader)
                 hl [0 ..< k] (0, vis) s2 = (r, s')"
    then obtain tdl vis s2 where
      q: "evolves quiet_event s s2" and
      e: "train_epochs compute_hidden ops tr tdl
            (filter (\<lambda>(key, item). takeWhile (\<lambda>x. x \<noteq> CHR ''-'') key = ''dev'') dataloader)
            hl [0 ..< k] (0, vis) s2 = (r, s')"
      by blast
    have "saves (trace s') = saves (trace s2)" "files s' = files s2"
      using train_epochs_other_policy [OF assms, where ops = ops and tdl = tdl and hl = hl
          and es = "[0 ..< k]" and st = "(0, vis)" and s = s2
          and edl = "filter (\<lambda>(key, item). takeWhile (\<lambda>x. x \<noteq> CHR ''-'') key = ''dev'') dataloader"]
        e
      by simp_all
    with evolves_quiet [OF q] l show ?thesis by simp
  qed
qed

lemma saves_new_events:
  assumes "evolves P s s'"
  shows "saves (trace s') = saves (trace s) @ saves (new_events s s')"
    and "dev_scores (trace s') = dev_scores (trace s) @ dev_scores (new_events s s')"
  using evolves_new_events(1) [OF assms] saves_append dev_scores_append by metis+

subsection \<open>The checkpoint policies and the files written\<close>

lemma train_finish_last:
  assumes "ckpt tr = ''last''"
  shows "train_finish tr s =
           (Inr (weights s),
            (emit (TorchLoad (model_checkpoint tr ''last''))
               (torch_save (model_checkpoint tr ''last'') s))\<lparr>weights := weights s\<rparr>)"
  using assms by (simp add: train_finish_def torch_load_def and_then_def)

text \<open>
  C5. Under the policy \<open>last\<close>, a call to \<open>train\<close> that returns has written exactly one
  checkpoint: the epoch loop (at each of its stages \<open>k\<close>, whatever the dev scores) wrote
  none, and after the loop the call did nothing but save \<open>last.ckpt\<close> with the current
  parameters and load it again.
\<close>

theorem last_checkpoint_written_once:
  assumes "ckpt tr = ''last''"
    and "train ops tr dataloader hl config s = (Inr w, s')"
  shows "\<exists>st s3. train_loop compute_hidden ops tr dataloader hl config (nat (epochs tr)) s
                   = (Inr st, s3)
           \<and> (\<forall>k. saves (new_events s
                   (snd (train_loop compute_hidden ops tr dataloader hl config k s))) = [])
           \<and> trace s' = trace s3 @ [TorchSave (model_checkpoint tr ''last''),
                                     TorchLoad (model_checkpoint tr ''last'')]
           \<and> saves (new_events s s') = [model_checkpoint tr ''last'']
           \<and> files s' (model_checkpoint tr ''last'') = Some (StateDict (weights s3))"
proof -
  let ?p = "model_checkpoint tr ''last''"
  from train_returns [OF assms(2)] obtain st s3 where
    l: "train_loop compute_hidden ops tr dataloader hl config (nat (epochs tr)) s = (Inr st, s3)" and
    f: "train_finish tr s3 = (Inr w, s')"
    by blast
  have nb: "ckpt tr \<noteq> ''best''" using assms(1) by simp
  have loop: "saves (new_events s (snd (train_loop compute_hidden ops tr dataloader hl config k s))) = []"
    for k
  proof -
    have "evolves (train_event_ok tr (dev_names dataloader)) s
            (snd (train_loop compute_hidden ops tr dataloader hl config k s))"
      by (rule evolves_train_loop)
    from saves_new_events(1) [OF this] train_loop_other_policy [OF nb, of ops dataloader hl config k s]
    show ?thesis by simp
  qed
  from f have s': "s' = (emit (TorchLoad ?p) (torch_save ?p s3))\<lparr>weights := weights s3\<rparr>"
    by (auto simp: train_finish_last [OF assms(1)])
  then have t: "trace s' = trace s3 @ [TorchSave ?p, TorchLoad ?p]"
    and fl: "files s' ?p = Some (StateDict (weights s3))"
    by simp_all
  have "evolves (train_event_ok tr (dev_names dataloader)) s
          (snd (train_loop compute_hidden ops tr dataloader hl config (nat (epochs tr)) s))"
    by (rule evolves_train_loop)
  with l have "trace s3 = trace s @ new_events s s3" by (simp add: evolves_new_events(1))
  with t have "trace s' = trace s @ (new_events s s3 @ [TorchSave ?p, TorchLoad ?p])" by simp
  then have "new_events s s' = new_events s s3 @ [TorchSave ?p, TorchLoad ?p]"
    by (rule new_events_append)
  moreover have "saves (new_events s s3) = []" using loop [of "nat (epochs tr)"] l by simp
  ultimately have sv: "saves (new_events s s') = [?p]" by simp
  show ?thesis
    by (rule exI [of _ st], rule exI [of _ s3]) (use l loop t sv fl in simp)
qed

lemma ok_event_without_visualization:
  assumes "\<not> visualize_flag tr" and "train_event_ok tr names ev"
  shows "ev \<noteq> ModelEval \<and> \<not> persist_event ev
       \<and> (\<forall>p \<in> set (touched ev). p = model_checkpoint tr (ckpt tr))"
  using assms by (cases ev) simp_all

lemma ok_events_without_visualization:
  assumes "\<not> visualize_flag tr" and "list_all (train_event_ok tr names) evs"
  shows "(\<forall>ev \<in> set evs. ev \<noteq> ModelEval \<and> \<not> persist_event ev)
       \<and> (\<forall>p \<in> set (touched_paths evs). p = model_checkpoint tr (ckpt tr))"
  using assms(2)
proof (induction evs)
  case Nil
  show ?case by simp
next
  case (Cons ev evs)
  from Cons.prems have "train_event_ok tr names ev" and "list_all (train_event_ok tr names) evs"
    by simp_all
  from ok_event_without_visualization [OF assms(1) this(1)] Cons.IH [OF this(2)]
  show ?case by (simp add: ball_Un)
qed

text \<open>
  C9. When the trainer's visualize flag is off, whatever \<open>train\<close> does and however it
  ends, none of its events is a hidden-state pass (\<open>ModelEval\<close> is only issued by
  \<open>compute_hidden\<close>), a directory creation, an array save, a call of \<open>visualize\<close> or a
  figure save; the only path it touches is the checkpoint of the configured policy, and
  every other file is as before. So nothing is written under \<open>./hidden_states\<close> or
  \<open>./visualization\<close>, the checkpoint directory itself not lying there.
\<close>

theorem no_visualization_files_when_disabled:
  assumes "\<not> visualize_flag tr"
    and "train ops tr dataloader hl config s = (r, s')"
  shows "(\<forall>ev \<in> set (new_events s s'). ev \<noteq> ModelEval \<and> \<not> persist_event ev)
       \<and> (\<forall>p \<in> set (touched_paths (new_events s s')). p = model_checkpoint tr (ckpt tr))
       \<and> (\<forall>p. p \<noteq> model_checkpoint tr (ckpt tr) \<longrightarrow> files s' p = files s p)
       \<and> (\<not> under_dir ''./hidden_states'' (model_checkpoint tr (ckpt tr))
            \<and> \<not> under_dir ''./visualization'' (model_checkpoint tr (ckpt tr))
          \<longrightarrow> (\<forall>p. under_dir ''./hidden_states'' p \<or> under_dir ''./visualization'' p
                 \<longrightarrow> p \<notin> set (touched_paths (new_events s s')) \<and> files s' p = files s p))"
proof -
  have "evolves (train_event_ok tr (dev_names dataloader)) s
          (snd (train ops tr dataloader hl config s))"
    by (rule evolves_train)
  with assms(2) have e: "evolves (train_event_ok tr (dev_names dataloader)) s s'" by simp
  from ok_events_without_visualization [OF assms(1) evolves_new_events(2) [OF e]]
  have a: "\<forall>ev \<in> set (new_events s s'). ev \<noteq> ModelEval \<and> \<not> persist_event ev"
    and b: "\<forall>p \<in> set (touched_paths (new_events s s')). p = model_checkpoint tr (ckpt tr)"
    by simp_all
  have c: "\<forall>p. p \<noteq> model_checkpoint tr (ckpt tr) \<longrightarrow> files s' p = files s p"
    using evolves_new_events(3) [OF e] b by blast
  have d: "\<not> under_dir ''./hidden_states'' (model_checkpoint tr (ckpt tr))
            \<and> \<not> under_dir ''./visualization'' (model_checkpoint tr (ckpt tr))
          \<longrightarrow> (\<forall>p. under_dir ''./hidden_states'' p \<or> under_dir ''./visualization'' p
                 \<longrightarrow> p \<notin> set (touched_paths (new_events s s')) \<and> files s' p = files s p)"
  proof (intro impI allI)
    fix p
    assume out: "\<not> under_dir ''./hidden_states'' (model_checkpoint tr (ckpt tr))
            \<and> \<not> under_dir ''./visualization'' (model_checkpoint tr (ckpt tr))"
      and inside: "under_dir ''./hidden_states'' p \<or> under_dir ''./visualization'' p"
    from out inside have ne: "p \<noteq> model_checkpoint tr (ckpt tr)" by blast
    from ne b have "p \<notin> set (touched_paths (new_events s s'))" by blast
    moreover from ne c have "files s' p = files s p" by blast
    ultimately show "p \<notin> set (touched_paths (new_events s s')) \<and> files s' p = files s p" ..
  qed
  show ?thesis by (intro conjI) (rule a, rule b, rule c, rule d)
qed

text \<open>
  C6. The splits handed to the evaluator are exactly those whose name, cut at its first
  \<open>-\<close>, is \<open>dev\<close>: this is what lines 144 to 147 select, every evaluation that \<open>train\<close>
  runs is over the splits of these names, and of \<open>dev-a\<close>, \<open>dev-b\<close> and \<open>development\<close>
  the first two are selected.
\<close>

theorem eval_splits_are_dev_prefixed:
  "select_eval dataloader =
     Inr (filter (\<lambda>(key, item). takeWhile (\<lambda>x. x \<noteq> CHR ''-'') key = ''dev'') dataloader)
   \<and> set (dev_names dataloader) =
       {key \<in> fst ` set dataloader. takeWhile (\<lambda>x. x \<noteq> CHR ''-'') key = ''dev''}
   \<and> (\<forall>names x. Evaluated names x
          \<in> set (new_events s (snd (train ops tr dataloader hl config s)))
        \<longrightarrow> names = dev_names dataloader)
   \<and> dev_names [(''dev-a'', a), (''dev-b'', b), (''development'', c)] = [''dev-a'', ''dev-b'']"
proof -
  have "evolves (train_event_ok tr (dev_names dataloader)) s
          (snd (train ops tr dataloader hl config s))"
    by (rule evolves_train)
  from evolves_new_events(2) [OF this]
  have "\<forall>ev \<in> set (new_events s (snd (train ops tr dataloader hl config s))).
          train_event_ok tr (dev_names dataloader) ev"
    by (simp add: list_all_iff)
  then have t: "\<forall>names x. Evaluated names x
          \<in> set (new_events s (snd (train ops tr dataloader hl config s)))
        \<longrightarrow> names = dev_names dataloader"
  proof (intro allI impI)
    fix names x
    assume all: "\<forall>ev \<in> set (new_events s (snd (train ops tr dataloader hl config s))).
          train_event_ok tr (dev_names dataloader) ev"
      and "Evaluated names x \<in> set (new_events s (snd (train ops tr dataloader hl config s)))"
    then have "train_event_ok tr (dev_names dataloader) (Evaluated names x)" by (rule bspec)
    then show "names = dev_names dataloader" by simp
  qed
  have d: "set (dev_names dataloader) =
       {key \<in> fst ` set dataloader. takeWhile (\<lambda>x. x \<noteq> CHR ''-'') key = ''dev''}"
    by (auto simp: dev_names_def image_iff)
  have ex: "dev_names [(''dev-a'', a), (''dev-b'', b), (''development'', c)] = [''dev-a'', ''dev-b'']"
    by (simp add: dev_names_def)
  show ?thesis by (intro conjI) (rule select_eval_filter, rule d, rule t, rule ex)
qed

subsection \<open>A run whose dev scores never exceed 0\<close>






subsection \<open>The claims at concrete runs\<close>

lemma upt_0_2: "[0 ..< 2] = [0, Suc 0]"
  by (simp add: numeral_2_eq_2)

lemma toy_train_last:
  "train (toy_ops score_half_steps) (toy_trainer 1 2 ''last'' False) toy_loaders [toy_batch [1]]
     None toy_world = (Inr 2, toy_last_final)"
  by (simp add: train_def train_defs toy_defs run_defs toy_loaders_def toy_last_final_def upt_0_2)


lemma toy_train_dev:
  "train (toy_ops score_zero) (toy_trainer 1 1 ''best'' False) toy_loaders_dev [toy_batch [1]]
     None toy_world = (Inl FileNotFoundError, toy_dev_final)"
  by (simp add: train_def train_defs toy_defs run_defs toy_loaders_dev_def toy_dev_final_def)

theorem last_checkpoint_written_once_witness:
  "ckpt (toy_trainer 1 2 ''last'' False) = ''last''
   \<and> train (toy_ops score_half_steps) (toy_trainer 1 2 ''last'' False) toy_loaders
        [toy_batch [1]] None toy_world = (Inr 2, toy_last_final)
   \<and> (\<exists>st s3. train_loop compute_hidden (toy_ops score_half_steps)
                 (toy_trainer 1 2 ''last'' False) toy_loaders [toy_batch [1]] None
                 (nat (epochs (toy_trainer 1 2 ''last'' False))) toy_world = (Inr st, s3)
         \<and> (\<forall>k. saves (new_events toy_world
                 (snd (train_loop compute_hidden (toy_ops score_half_steps)
                    (toy_trainer 1 2 ''last'' False) toy_loaders [toy_batch [1]] None k
                    toy_world))) = [])
         \<and> trace toy_last_final = trace s3
               @ [TorchSave (model_checkpoint (toy_trainer 1 2 ''last'' False) ''last''),
                  TorchLoad (model_checkpoint (toy_trainer 1 2 ''last'' False) ''last'')]
         \<and> saves (new_events toy_world toy_last_final) =
               [model_checkpoint (toy_trainer 1 2 ''last'' False) ''last'']
         \<and> files toy_last_final (model_checkpoint (toy_trainer 1 2 ''last'' False) ''last'') =
               Some (StateDict (weights s3)))
   \<and> saves (trace toy_last_final) = [''./models/checkpoints/0/last.ckpt'']"
proof -
  have c: "ckpt (toy_trainer 1 2 ''last'' False) = ''last''" by (simp add: toy_trainer_def)
  have s: "saves (trace toy_last_final) = [''./models/checkpoints/0/last.ckpt'']"
    by (simp add: toy_last_final_def)
  note ex = last_checkpoint_written_once [OF c toy_train_last]
  show ?thesis by (rule conjI [OF c conjI [OF toy_train_last conjI [OF ex s]]])
qed

theorem no_visualization_files_when_disabled_witness:
  "\<not> visualize_flag (toy_trainer 1 2 ''last'' False)
   \<and> train (toy_ops score_half_steps) (toy_trainer 1 2 ''last'' False) toy_loaders
        [toy_batch [1]] None toy_world = (Inr 2, toy_last_final)
   \<and> touched_paths (new_events toy_world toy_last_final) = [''./models/checkpoints/0/last.ckpt'']
   \<and> \<not> under_dir ''./hidden_states'' (model_checkpoint (toy_trainer 1 2 ''last'' False)
          (ckpt (toy_trainer 1 2 ''last'' False)))
   \<and> \<not> under_dir ''./visualization'' (model_checkpoint (toy_trainer 1 2 ''last'' False)
          (ckpt (toy_trainer 1 2 ''last'' False)))
   \<and> under_dir ''./hidden_states'' ''./hidden_states/dirty/badnets/0.1/labels.npy''
   \<and> ''./hidden_states/dirty/badnets/0.1/labels.npy''
        \<notin> set (touched_paths (new_events toy_world toy_last_final))
   \<and> files toy_last_final ''./hidden_states/dirty/badnets/0.1/labels.npy''
        = files toy_world ''./hidden_states/dirty/badnets/0.1/labels.npy''
   \<and> ModelEval \<notin> set (new_events toy_world toy_last_final)"
proof -
  have f: "\<not> visualize_flag (toy_trainer 1 2 ''last'' False)" by (simp add: toy_trainer_def)
  have t: "touched_paths (new_events toy_world toy_last_final) = [''./models/checkpoints/0/last.ckpt'']"
    by (simp add: new_events_def toy_world_def toy_last_final_def)
  have u: "\<not> under_dir ''./hidden_states'' (model_checkpoint (toy_trainer 1 2 ''last'' False)
          (ckpt (toy_trainer 1 2 ''last'' False)))"
    "\<not> under_dir ''./visualization'' (model_checkpoint (toy_trainer 1 2 ''last'' False)
          (ckpt (toy_trainer 1 2 ''last'' False)))"
    "under_dir ''./hidden_states'' ''./hidden_states/dirty/badnets/0.1/labels.npy''"
    by (simp_all add: under_dir_def model_checkpoint_def path_join_def path_join2_def toy_trainer_def)
  note th = no_visualization_files_when_disabled [OF f toy_train_last]
  note d = th [THEN conjunct2, THEN conjunct2, THEN conjunct2]
  note all = mp [OF d conjI [OF u(1) u(2)]]
  note here = mp [OF spec [OF all] disjI1 [OF u(3)]]
  have m: "ModelEval \<notin> set (new_events toy_world toy_last_final)"
    by (simp add: new_events_def toy_world_def toy_last_final_def)
  show ?thesis
    by (rule conjI [OF f conjI [OF toy_train_last conjI [OF t conjI [OF u(1) conjI [OF u(2)
          conjI [OF u(3) conjI [OF conjunct1 [OF here] conjI [OF conjunct2 [OF here] m]]]]]]]])
qed

theorem eval_splits_are_dev_prefixed_witness:
  "train (toy_ops score_zero) (toy_trainer 1 1 ''best'' False) toy_loaders_dev [toy_batch [1]]
     None toy_world = (Inl FileNotFoundError, toy_dev_final)
   \<and> Evaluated [''dev-a'', ''dev-b''] 0 \<in> set (new_events toy_world toy_dev_final)
   \<and> [''dev-a'', ''dev-b''] = dev_names toy_loaders_dev
   \<and> select_eval toy_loaders_dev =
       Inr [(''dev-a'', [toy_batch [0]]), (''dev-b'', [toy_batch [1]])]"
proof -
  have m: "Evaluated [''dev-a'', ''dev-b''] 0 \<in> set (new_events toy_world toy_dev_final)"
    by (simp add: new_events_def toy_world_def toy_dev_final_def)
  note th = eval_splits_are_dev_prefixed [where dataloader = toy_loaders_dev and s = toy_world
      and ops = "toy_ops score_zero" and tr = "toy_trainer 1 1 ''best'' False"
      and hl = "[toy_batch [1]]" and config = None]
  note all = th [THEN conjunct2, THEN conjunct2, THEN conjunct1, unfolded toy_train_dev snd_conv]
  note n = mp [OF spec [OF spec [OF all]] m]
  have s: "select_eval toy_loaders_dev =
       Inr [(''dev-a'', [toy_batch [0]]), (''dev-b'', [toy_batch [1]])]"
    by (simp add: toy_loaders_dev_def first_piece_def)
  show ?thesis by (rule conjI [OF toy_train_dev conjI [OF m conjI [OF n s]]])
qed


subsection \<open>The hidden-state history, for a \<open>compute_hidden\<close> that returns\<close>















end
